theory Spec2Isabelle
  imports Complex_Main
begin

section \<open>Values, errors and tensors\<close>

text \<open>
  Python exceptions that the modelled code can raise or catch.
\<close>

datatype error = ValueError | RuntimeError | AttributeError | TypeError | IndexError
  | FloatingPointError

text \<open>
  What a \<open>regularization\<close> method hands back to the training driver: a Python float
  or a Python list.
\<close>

datatype pyval = PyFloat real | PyList "pyval list"

text \<open>
  A tensor (a \<open>torch\<close> tensor or a \<open>numpy\<close> array) is its shape and its elements in
  row-major order. Elements are real numbers: rounding, overflow and the conversion
  between \<open>float64\<close> and \<open>float32\<close> are outside the model, and so is the device a tensor
  lives on (\<open>.cuda()\<close> is the identity on values). Every tensor here is contiguous.
\<close>

record tensor =
  shape :: "nat list"
  data :: "real list"

definition wf_tensor :: "tensor \<Rightarrow> bool" where
  "wf_tensor t = (length (data t) = prod_list (shape t))"

definition bind_err :: "error + 'a \<Rightarrow> ('a \<Rightarrow> error + 'b) \<Rightarrow> error + 'b" where
  "bind_err r f = (case r of Inl e \<Rightarrow> Inl e | Inr v \<Rightarrow> f v)"

text \<open>
  Row-major addressing: \<open>ravel s idx\<close> is the offset of the multi-index \<open>idx\<close> in a
  tensor of shape \<open>s\<close>, \<open>unravel s k\<close> the multi-index of offset \<open>k\<close>, and \<open>elem t idx\<close> the
  element \<open>t[idx]\<close>.
\<close>

fun ravel :: "nat list \<Rightarrow> nat list \<Rightarrow> nat" where
  "ravel (d # ds) (i # is) = i * prod_list ds + ravel ds is"
| "ravel _ _ = 0"

fun unravel :: "nat list \<Rightarrow> nat \<Rightarrow> nat list" where
  "unravel [] k = []"
| "unravel (d # ds) k = (k div prod_list ds) # unravel ds (k mod prod_list ds)"

definition elem :: "tensor \<Rightarrow> nat list \<Rightarrow> real" where
  "elem t idx = data t ! ravel (shape t) idx"

definition valid_idx :: "nat list \<Rightarrow> nat list \<Rightarrow> bool" where
  "valid_idx s idx = list_all2 (\<lambda>i d. i < d) idx s"

definition tabulate :: "nat list \<Rightarrow> (nat list \<Rightarrow> real) \<Rightarrow> tensor" where
  "tabulate s f = \<lparr>shape = s, data = map (\<lambda>k. f (unravel s k)) [0..<prod_list s]\<rparr>"

text \<open>
  Broadcasting of two shapes, as \<open>torch\<close> and \<open>numpy\<close> do it: the shorter shape is padded
  with leading ones, and two sizes are compatible when they are equal or one of them
  is 1. An operand is read at the multi-index of the result with the index of every
  dimension of size 1 replaced by 0.
\<close>

definition pad_shape :: "nat \<Rightarrow> nat list \<Rightarrow> nat list" where
  "pad_shape r s = replicate (r - length s) 1 @ s"

fun broadcast_dims :: "nat list \<Rightarrow> nat list \<Rightarrow> error + nat list" where
  "broadcast_dims (a # as) (b # bs) =
     (if a = b \<or> b = 1 then bind_err (broadcast_dims as bs) (\<lambda>r. Inr (a # r))
      else if a = 1 then bind_err (broadcast_dims as bs) (\<lambda>r. Inr (b # r))
      else Inl RuntimeError)"
| "broadcast_dims _ _ = Inr []"

definition broadcast_shapes :: "nat list \<Rightarrow> nat list \<Rightarrow> error + nat list" where
  "broadcast_shapes s1 s2 =
     (let r = max (length s1) (length s2)
      in broadcast_dims (pad_shape r s1) (pad_shape r s2))"

definition bidx :: "nat list \<Rightarrow> nat list \<Rightarrow> nat list" where
  "bidx s idx = map2 (\<lambda>d i. if d = 1 then 0 else i) s idx"

definition bat :: "tensor \<Rightarrow> nat list \<Rightarrow> real" where
  "bat t idx = (let s = pad_shape (length idx) (shape t) in data t ! ravel s (bidx s idx))"

definition binop :: "(real \<Rightarrow> real \<Rightarrow> real) \<Rightarrow> tensor \<Rightarrow> tensor \<Rightarrow> error + tensor" where
  "binop f a b =
     bind_err (broadcast_shapes (shape a) (shape b))
       (\<lambda>s. Inr (tabulate s (\<lambda>idx. f (bat a idx) (bat b idx))))"

definition map_tensor :: "(real \<Rightarrow> real) \<Rightarrow> tensor \<Rightarrow> tensor" where
  "map_tensor f t = t\<lparr>data := map f (data t)\<rparr>"

text \<open>
  \<open>t.sum(dim=d)\<close>: the dimension \<open>d\<close> is summed out.
\<close>

definition sum_dim :: "tensor \<Rightarrow> nat \<Rightarrow> error + tensor" where
  "sum_dim t d =
     (if d < length (shape t)
      then Inr (tabulate (take d (shape t) @ drop (Suc d) (shape t))
                 (\<lambda>idx. sum_list (map (\<lambda>j. elem t (take d idx @ j # drop d idx))
                                     [0..<shape t ! d])))
      else Inl IndexError)"

text \<open>
  \<open>t.unsqueeze(d)\<close>: a dimension of size 1 is inserted at position \<open>d\<close>, counted from
  the end when \<open>d\<close> is negative.
\<close>

definition unsqueeze :: "tensor \<Rightarrow> int \<Rightarrow> error + tensor" where
  "unsqueeze t d =
     (let r = int (length (shape t)); p = (if d < 0 then d + r + 1 else d)
      in if 0 \<le> p \<and> p \<le> r
         then Inr (t\<lparr>shape := take (nat p) (shape t) @ 1 # drop (nat p) (shape t)\<rparr>)
         else Inl IndexError)"

text \<open>
  \<open>t.view(*sizes)\<close>: at most one size may be \<open>-1\<close>; it is inferred from the number of
  elements, which the other sizes must divide (and their product must not be 0). The
  elements are kept in order.
\<close>

definition view :: "tensor \<Rightarrow> int list \<Rightarrow> error + tensor" where
  "view t sizes =
     (let n = length (data t);
          known = prod_list (map nat (filter (\<lambda>d. d \<noteq> - 1) sizes));
          holes = length (filter (\<lambda>d. d = - 1) sizes)
      in if (\<exists>d \<in> set sizes. d < - 1) \<or> holes > 1 then Inl RuntimeError
         else if holes = 1
         then (if known = 0 \<or> n mod known \<noteq> 0 then Inl RuntimeError
               else Inr (t\<lparr>shape := map (\<lambda>d. if d = - 1 then n div known else nat d) sizes\<rparr>))
         else (if known = n then Inr (t\<lparr>shape := map nat sizes\<rparr>) else Inl RuntimeError))"

section \<open>Layers of \<open>models/model_layers.py\<close>\<close>

text \<open>
  \<open>nn.Linear(in, out)\<close>: \<open>weight\<close> of shape \<open>[out, in]\<close> and \<open>bias\<close> of shape \<open>[out]\<close>.
  Applied to a matrix \<open>x\<close> of shape \<open>[m, in]\<close> it gives \<open>x W\<^sup>T + b\<close> of shape \<open>[m, out]\<close>; a
  last dimension other than \<open>in\<close> is a \<open>RuntimeError\<close>. Only matrices are passed to the
  linear layers of this file.
\<close>

record Linear =
  weight :: tensor
  bias :: tensor

definition Linear_forward :: "Linear \<Rightarrow> tensor \<Rightarrow> error + tensor" where
  "Linear_forward l x =
     (case (shape x, shape (weight l)) of
        ([m, i], [out, inp]) \<Rightarrow>
          if i = inp \<and> shape (bias l) = [out]
          then Inr (tabulate [m, out]
                 (\<lambda>idx. sum_list (map (\<lambda>c. elem x [idx ! 0, c] * elem (weight l) [idx ! 1, c]) [0..<inp])
                         + elem (bias l) [idx ! 1]))
          else Inl RuntimeError
      | _ \<Rightarrow> Inl RuntimeError)"

text \<open>
  \<open>EmbeddingLayer.forward\<close>: \<open>x * self.emb\<close>, a broadcast product.
\<close>

record EmbeddingLayer =
  emb_weight :: tensor

definition EmbeddingLayer_forward :: "EmbeddingLayer \<Rightarrow> tensor \<Rightarrow> error + tensor" where
  "EmbeddingLayer_forward self x = binop (*) x (emb_weight self)"

text \<open>
  \<open>AttentionLayer\<close>: the linear layer \<open>attn\<close> from \<open>in_dim\<close> to \<open>nb_attention_head\<close> and
  the constant \<open>temperature = 1.\<close>. \<open>forward\<close> returns the pair
  \<open>(attn_applied, attn_weights)\<close>.
\<close>

record AttentionLayer =
  attn :: Linear
  nb_attention_head :: nat
  temperature :: real

definition AttentionLayer_forward :: "AttentionLayer \<Rightarrow> tensor \<Rightarrow> error + (tensor \<times> tensor)" where
  "AttentionLayer_forward self x =
     (case shape x of
        [nb_examples, nb_nodes, nb_channels] \<Rightarrow>
          bind_err (view x [- 1, int nb_channels]) (\<lambda>x.
          bind_err (Linear_forward (attn self) x) (\<lambda>scores.
          let attn_weights = map_tensor exp (map_tensor (\<lambda>v. v * temperature self) scores) in
          bind_err (view attn_weights [int nb_examples, int nb_nodes, int (nb_attention_head self)])
            (\<lambda>attn_weights.
          bind_err (sum_dim attn_weights 1) (\<lambda>total.
          bind_err (unsqueeze total 1) (\<lambda>total.
          bind_err (binop (/) attn_weights total) (\<lambda>attn_weights.
          bind_err (view x [int nb_examples, int nb_nodes, int nb_channels]) (\<lambda>x.
          bind_err (unsqueeze x (- 1)) (\<lambda>x1.
          bind_err (unsqueeze attn_weights (- 2)) (\<lambda>w1.
          bind_err (binop (*) x1 w1) (\<lambda>attn_applied.
          bind_err (sum_dim attn_applied 1) (\<lambda>attn_applied.
          bind_err (view attn_applied [int nb_examples, - 1]) (\<lambda>attn_applied.
          Inr (attn_applied, attn_weights)))))))))))))
      | _ \<Rightarrow> Inl ValueError)"

text \<open>
  The score the attention layer gives node \<open>n\<close> of example \<open>e\<close> under head \<open>h\<close>: the
  linear projection of the node's features, times the temperature.
\<close>

definition attention_score :: "AttentionLayer \<Rightarrow> tensor \<Rightarrow> nat \<Rightarrow> nat \<Rightarrow> nat \<Rightarrow> real" where
  "attention_score self x e n h =
     (sum_list (map (\<lambda>c. elem x [e, n, c] * elem (weight (attn self)) [h, c])
                 [0..<shape x ! 2])
      + elem (bias (attn self)) [h]) * temperature self"

text \<open>
  \<open>ElementwiseGateLayer\<close>: the linear layer \<open>attn\<close> from \<open>in_dim\<close> to 1, with bias.
\<close>

definition sigmoid :: "real \<Rightarrow> real" where
  "sigmoid v = 1 / (1 + exp (- v))"

record ElementwiseGateLayer =
  gate_attn :: Linear

definition ElementwiseGateLayer_forward :: "ElementwiseGateLayer \<Rightarrow> tensor \<Rightarrow> error + tensor" where
  "ElementwiseGateLayer_forward self x =
     (case shape x of
        [nb_examples, nb_nodes, nb_channels] \<Rightarrow>
          bind_err (view x [- 1, int nb_channels]) (\<lambda>x.
          bind_err (Linear_forward (gate_attn self) x) (\<lambda>scores.
          let gate_weights = map_tensor sigmoid scores in
          view gate_weights [int nb_examples, int nb_nodes, 1]))
      | _ \<Rightarrow> Inl ValueError)"

text \<open>
  The projection the gate applies to the features of node \<open>n\<close> of example \<open>e\<close>.
\<close>

definition gate_score :: "ElementwiseGateLayer \<Rightarrow> tensor \<Rightarrow> nat \<Rightarrow> nat \<Rightarrow> real" where
  "gate_score self x e n =
     sum_list (map (\<lambda>c. elem x [e, n, c] * elem (weight (gate_attn self)) [0, c])
                [0..<shape x ! 2])
     + elem (bias (gate_attn self)) [0]"

section \<open>\<open>GraphNetwork\<close> of \<open>models/model_layers.py\<close>\<close>

text \<open>
  The fields \<open>supervised\<close> reads. The graph layers (\<open>GCNLayer\<close>, \<open>SGCLayer\<close>, \<open>LCGLayer\<close> of
  \<open>models/graph_layers.py\<close>) are parameters: each is the function its \<open>forward\<close>
  computes. A \<open>torch.nn.Dropout\<close> module is the function it applies in this call (the
  mask it draws belongs to the runtime). \<open>emb\<close> is \<open>None\<close> when \<open>add_emb\<close> is falsy and
  \<open>attentionLayer\<close> is \<open>None\<close> when \<open>attention_head\<close> is 0, as \<open>__init__\<close> builds them.
  The gradient hooks (\<open>register_hook\<close>) and the forward hooks (\<open>save_computations\<close>) do
  not change a value that is returned and are left out.
\<close>

type_synonym graph_layer = "tensor \<Rightarrow> error + tensor"

type_synonym dropout = "tensor \<Rightarrow> tensor"

record GraphNetwork =
  on_cuda :: bool
  emb :: "EmbeddingLayer option"
  my_convs :: "graph_layer list"
  use_gate :: real
  gates :: "ElementwiseGateLayer option list"
  my_dropouts :: "dropout option list"
  attentionLayer :: "AttentionLayer option"
  my_logistic_layers :: "Linear list"

definition relu :: "tensor \<Rightarrow> tensor" where
  "relu x = map_tensor (max 0) x"

definition ones :: "nat list \<Rightarrow> tensor" where
  "ones s = \<lparr>shape = s, data = replicate (prod_list s) 1\<rparr>"

text \<open>
  Calling an entry of \<open>self.gates\<close>: the entries are \<open>None\<close> when the network was built
  with \<open>use_gate <= 0\<close>, and calling \<open>None\<close> is a \<open>TypeError\<close>.
\<close>

definition call_gate :: "ElementwiseGateLayer option \<Rightarrow> tensor \<Rightarrow> error + tensor" where
  "call_gate gate x = (case gate of None \<Rightarrow> Inl TypeError | Some g \<Rightarrow> ElementwiseGateLayer_forward g x)"

text \<open>
  The drop-out step of the loop: \<open>id_to_keep = dropout(ones((x.size(0), x.size(1)))).unsqueeze(2)\<close>,
  then \<open>x * id_to_keep\<close>.
\<close>

definition apply_dropout :: "dropout option \<Rightarrow> tensor \<Rightarrow> error + tensor" where
  "apply_dropout dropout x =
     (case dropout of
        None \<Rightarrow> Inr x
      | Some d \<Rightarrow>
          (case shape x of
             s0 # s1 # _ \<Rightarrow> bind_err (unsqueeze (d (ones [s0, s1])) 2) (\<lambda>id_to_keep. binop (*) x id_to_keep)
           | _ \<Rightarrow> Inl IndexError))"

text \<open>
  One turn of the loop of \<open>supervised\<close> over \<open>zip(self.my_convs, self.gates, self.my_dropouts)\<close>.
\<close>

definition supervised_block ::
  "GraphNetwork \<Rightarrow> graph_layer \<times> ElementwiseGateLayer option \<times> dropout option \<Rightarrow> tensor \<Rightarrow> error + tensor" where
  "supervised_block self lgd x =
     (case lgd of (layer, gate, dropout) \<Rightarrow>
        bind_err
          (if use_gate self > 0
           then bind_err (layer x) (\<lambda>x. bind_err (call_gate gate x) (\<lambda>g. binop (*) g x))
           else layer x)
          (\<lambda>x. apply_dropout dropout (relu x)))"

fun supervised_loop ::
  "GraphNetwork \<Rightarrow> (graph_layer \<times> ElementwiseGateLayer option \<times> dropout option) list \<Rightarrow> tensor \<Rightarrow> error + tensor" where
  "supervised_loop self [] x = Inr x"
| "supervised_loop self (lgd # rest) x = bind_err (supervised_block self lgd x) (supervised_loop self rest)"

text \<open>
  \<open>xs[-1]\<close> on a Python list.
\<close>

definition last_item :: "'a list \<Rightarrow> error + 'a" where
  "last_item xs = (if xs = [] then Inl IndexError else Inr (last xs))"

definition supervised :: "GraphNetwork \<Rightarrow> tensor \<Rightarrow> error + tensor" where
  "supervised self x =
     (case shape x of
        [nb_examples, nb_nodes, nb_channels] \<Rightarrow>
          bind_err (case emb self of None \<Rightarrow> Inr x | Some e \<Rightarrow> EmbeddingLayer_forward e x) (\<lambda>x.
          bind_err (supervised_loop self (zip (my_convs self) (zip (gates self) (my_dropouts self))) x) (\<lambda>x.
          bind_err (case attentionLayer self of
                      None \<Rightarrow> Inr x
                    | Some a \<Rightarrow> bind_err (AttentionLayer_forward a x) (\<lambda>r. Inr (fst r))) (\<lambda>x.
          bind_err (last_item (my_logistic_layers self)) (\<lambda>logistic.
          bind_err (view x [int nb_examples, - 1]) (\<lambda>x.
          Linear_forward logistic x)))))
      | _ \<Rightarrow> Inl ValueError)"

text \<open>
  \<open>GraphNetwork.forward\<close>: the unpacking of \<open>x.size()\<close>, then \<open>return self.supervised(x)\<close>.
\<close>

definition GraphNetwork_forward :: "GraphNetwork \<Rightarrow> tensor \<Rightarrow> error + tensor" where
  "GraphNetwork_forward self x =
     (case shape x of
        [nb_examples, nb_nodes, nb_channels] \<Rightarrow> supervised self x
      | _ \<Rightarrow> Inl ValueError)"

section \<open>\<open>SparseLogisticRegression\<close> of \<open>models/model_layers.py\<close>\<close>

text \<open>
  The \<open>numpy\<close> operations of the constructor. The adjacency is a matrix, and only
  matrices and vectors are modelled: an operation answers \<open>ValueError\<close> for an array of
  any other rank.

  \<open>np.fill_diagonal(a, val)\<close> on a matrix of shape \<open>[r, c]\<close> writes \<open>val\<close> to the flat
  positions \<open>0, c + 1, 2 (c + 1), ...\<close> below \<open>c * c\<close>.
\<close>

definition np_fill_diagonal :: "tensor \<Rightarrow> real \<Rightarrow> error + tensor" where
  "np_fill_diagonal a val =
     (case shape a of
        [r, c] \<Rightarrow>
          Inr (a\<lparr>data := map (\<lambda>k. if k mod (c + 1) = 0 \<and> k < c * c then val else data a ! k)
                             [0..<length (data a)]\<rparr>)
      | _ \<Rightarrow> Inl ValueError)"

definition epsilon :: real where
  "epsilon = 1 / 100000"

text \<open>
  \<open>D ** p\<close> for a negative exponent \<open>p\<close>. Where an element of \<open>D\<close> is 0 or negative, \<open>numpy\<close>
  writes \<open>inf\<close> or \<open>nan\<close> into the result (and warns); the elements of the model are real
  numbers, so the model stops there with \<open>FloatingPointError\<close>. A result \<open>Inr\<close> therefore
  says that no \<open>inf\<close> and no \<open>nan\<close> was produced.
\<close>

definition np_power :: "tensor \<Rightarrow> real \<Rightarrow> error + tensor" where
  "np_power d p =
     (if list_all (\<lambda>v. 0 < v) (data d) then Inr (map_tensor (\<lambda>v. v powr p) d)
      else Inl FloatingPointError)"

definition np_diag :: "tensor \<Rightarrow> error + tensor" where
  "np_diag v =
     (case shape v of
        [n] \<Rightarrow> Inr (tabulate [n, n] (\<lambda>idx. if idx ! 0 = idx ! 1 then elem v [idx ! 0] else 0))
      | _ \<Rightarrow> Inl ValueError)"

definition np_eye :: "nat \<Rightarrow> tensor" where
  "np_eye n = tabulate [n, n] (\<lambda>idx. if idx ! 0 = idx ! 1 then 1 else 0)"

definition np_dot :: "tensor \<Rightarrow> tensor \<Rightarrow> error + tensor" where
  "np_dot a b =
     (case (shape a, shape b) of
        ([m, k], [k', n]) \<Rightarrow>
          if k = k'
          then Inr (tabulate [m, n]
                 (\<lambda>idx. sum_list (map (\<lambda>l. elem a [idx ! 0, l] * elem b [l, idx ! 1]) [0..<k])))
          else Inl ValueError
      | _ \<Rightarrow> Inl ValueError)"

text \<open>
  \<open>D = adj.sum(0) + 1e-5\<close>, the normalization
  \<open>np.diag(D**-0.5).dot(adj).dot(np.diag(D**-0.5))\<close>, and the Laplacian
  \<open>np.eye(D.shape[0]) - ...\<close>.
\<close>

definition degrees :: "tensor \<Rightarrow> error + tensor" where
  "degrees adj = bind_err (sum_dim adj 0) (\<lambda>s. Inr (map_tensor (\<lambda>v. v + epsilon) s))"

definition normalize_adj :: "tensor \<Rightarrow> tensor \<Rightarrow> error + tensor" where
  "normalize_adj D adj =
     bind_err (np_power D (- 0.5)) (\<lambda>s1.
     bind_err (np_diag s1) (\<lambda>d1.
     bind_err (np_dot d1 adj) (\<lambda>m.
     bind_err (np_power D (- 0.5)) (\<lambda>s2.
     bind_err (np_diag s2) (\<lambda>d2.
     np_dot m d2)))))"

definition build_laplacian :: "tensor \<Rightarrow> error + tensor" where
  "build_laplacian adj =
     bind_err (degrees adj) (\<lambda>D.
     bind_err (case shape D of [] \<Rightarrow> Inl IndexError | n # _ \<Rightarrow> Inr (np_eye n)) (\<lambda>eye.
     bind_err (normalize_adj D adj) (\<lambda>norm.
     binop (-) eye norm)))"

text \<open>
  \<open>nn.Linear(in, out)\<close> at construction: the shapes are fixed by the arguments, the
  elements are drawn at random by the runtime and are parameters here.
\<close>

definition nn_Linear :: "nat \<Rightarrow> nat \<Rightarrow> real list \<Rightarrow> real list \<Rightarrow> Linear" where
  "nn_Linear in_features out_features w b =
     \<lparr>weight = \<lparr>shape = [out_features, in_features], data = w\<rparr>,
      bias = \<lparr>shape = [out_features], data = b\<rparr>\<rparr>"

record SparseLogisticRegression =
  slr_nb_nodes :: nat
  slr_input_dim :: nat
  laplacian :: tensor
  slr_out_dim :: nat
  slr_on_cuda :: bool
  slr_my_logistic_layers :: "Linear list"

text \<open>
  The constructor receives a reference to the caller's array: \<open>np.fill_diagonal\<close> writes
  into that array. The store maps references to arrays, and the constructor returns
  the store it leaves behind together with the object or the exception. A reference
  the store does not hold stands for an argument that is no array. The weights \<open>w\<close>
  and \<open>b\<close> are what \<open>nn.Linear\<close> draws.
\<close>

type_synonym ref = nat

type_synonym store = "ref \<Rightarrow> tensor option"

definition SparseLogisticRegression_init ::
  "store \<Rightarrow> nat \<Rightarrow> nat \<Rightarrow> ref \<Rightarrow> nat option \<Rightarrow> bool \<Rightarrow> real list \<Rightarrow> real list
   \<Rightarrow> store \<times> (error + SparseLogisticRegression)" where
  "SparseLogisticRegression_init h nb_nodes input_dim adj out_dim cuda w b =
     (let out_dim = (case out_dim of None \<Rightarrow> 2 | Some d \<Rightarrow> d)
      in case h adj of
           None \<Rightarrow> (h, Inl AttributeError)
         | Some a \<Rightarrow>
             (case np_fill_diagonal a 0 of
                Inl e \<Rightarrow> (h, Inl e)
              | Inr a' \<Rightarrow>
                  (h(adj \<mapsto> a'),
                   bind_err (build_laplacian a') (\<lambda>lap.
                   Inr \<lparr>slr_nb_nodes = nb_nodes, slr_input_dim = input_dim, laplacian = lap,
                        slr_out_dim = out_dim, slr_on_cuda = cuda,
                        slr_my_logistic_layers = [nn_Linear (nb_nodes * input_dim) out_dim w b]\<rparr>))))"

text \<open>
  \<open>a.mm(b)\<close> of \<open>torch\<close> (a size mismatch is a \<open>RuntimeError\<close>) and
  \<open>SparseLogisticRegression.regularization\<close>:
  \<open>reg = torch.abs(weight).mm(laplacian) * torch.abs(weight)\<close>, \<open>return reg.sum() * reg_lambda\<close>.
\<close>

definition torch_mm :: "tensor \<Rightarrow> tensor \<Rightarrow> error + tensor" where
  "torch_mm a b =
     (case (shape a, shape b) of
        ([m, k], [k', n]) \<Rightarrow>
          if k = k'
          then Inr (tabulate [m, n]
                 (\<lambda>idx. sum_list (map (\<lambda>l. elem a [idx ! 0, l] * elem b [l, idx ! 1]) [0..<k])))
          else Inl RuntimeError
      | _ \<Rightarrow> Inl RuntimeError)"

definition SparseLogisticRegression_regularization ::
  "SparseLogisticRegression \<Rightarrow> real \<Rightarrow> error + real" where
  "SparseLogisticRegression_regularization self reg_lambda =
     bind_err (last_item (slr_my_logistic_layers self)) (\<lambda>logistic.
     bind_err (torch_mm (map_tensor abs (weight logistic)) (laplacian self)) (\<lambda>m.
     bind_err (binop (*) m (map_tensor abs (weight logistic))) (\<lambda>reg.
     Inr (sum_list (data reg) * reg_lambda))))"

text \<open>
  The quantities the statements about the Laplacian are written with, for an adjacency \<open>A\<close> of \<open>n\<close>
  nodes and a weight matrix \<open>W\<close> of shape \<open>[o, n]\<close>: the perturbed degree of node \<open>j\<close>,
  the entry \<open>(i, j)\<close> of \<open>I - D\<^sup>-\<^sup>1\<^sup>/\<^sup>2 A D\<^sup>-\<^sup>1\<^sup>/\<^sup>2\<close>, and the smoothness penalty
  \<open>sum((|W| L) \<odot> |W|)\<close>.
\<close>

definition degree :: "tensor \<Rightarrow> nat \<Rightarrow> real" where
  "degree A j = (\<Sum>i<shape A ! 0. elem A [i, j]) + epsilon"

definition laplacian_entry :: "tensor \<Rightarrow> nat \<Rightarrow> nat \<Rightarrow> real" where
  "laplacian_entry A i j =
     (if i = j then 1 else 0) - elem A [i, j] / (sqrt (degree A i) * sqrt (degree A j))"

definition smoothness_penalty :: "tensor \<Rightarrow> (nat \<Rightarrow> nat \<Rightarrow> real) \<Rightarrow> real" where
  "smoothness_penalty W L =
     (\<Sum>k<shape W ! 0. \<Sum>j<shape W ! 1. (\<Sum>i<shape W ! 1. \<bar>elem W [k, i]\<bar> * L i j) * \<bar>elem W [k, j]\<bar>)"

text \<open>
  The adjacency after \<open>np.fill_diagonal(adj, 0.)\<close>, entry by entry.
\<close>

definition zero_diagonal :: "tensor \<Rightarrow> tensor" where
  "zero_diagonal A = tabulate (shape A) (\<lambda>idx. if idx ! 0 = idx ! 1 then 0 else elem A idx)"

definition symmetric :: "tensor \<Rightarrow> bool" where
  "symmetric A = list_all (\<lambda>i. list_all (\<lambda>j. elem A [i, j] = elem A [j, i]) [0..<shape A ! 1])
                   [0..<shape A ! 0]"

definition nonnegative :: "tensor \<Rightarrow> bool" where
  "nonnegative A = list_all (\<lambda>v. 0 \<le> v) (data A)"

section \<open>Percentile pruning of the adjacency transform\<close>

text \<open>
  Modelled from the spec: the adjacency transform (\<open>get_transform\<close> of
  \<open>models/graph_layers.py\<close>) is not among the source files. The \<open>q\<close>-th percentile of a
  weight distribution, by linear interpolation between the two nearest ranks of the
  sorted weights.
\<close>

definition percentile :: "real list \<Rightarrow> real \<Rightarrow> real" where
  "percentile ws q =
     (let s = sort ws;
          pos = q / 100 * real (length s - 1);
          lo = nat \<lfloor>pos\<rfloor>;
          hi = nat \<lceil>pos\<rceil>
      in s ! lo + (pos - real lo) * (s ! hi - s ! lo))"

text \<open>
  Modelled from the spec: the pruning step of the absent \<open>get_transform\<close>, "retain only
  edge weights at or above a percentile threshold of the weight distribution; all
  others zeroed". The edge weights are the non-zero entries. \<open>keep\<close> is the edge-keep
  percentile, the share of the edges that is kept (\<open>--percentile\<close> of \<open>main.py\<close>: "How
  many edges to keep", 100 by default), so the threshold is the percentile \<open>100 - keep\<close>.
\<close>

definition percentile_prune :: "real \<Rightarrow> tensor \<Rightarrow> tensor" where
  "percentile_prune keep adj =
     (let ws = filter (\<lambda>w. w \<noteq> 0) (data adj)
      in if ws = [] then adj
         else let threshold = percentile ws (100 - keep)
              in map_tensor (\<lambda>w. if threshold \<le> w then w else 0) adj)"

text \<open>
  Modelled from the spec: the self-loop option of the absent \<open>get_transform\<close>,
  "optionally set diagonal to 1".
\<close>

definition add_self_loops :: "tensor \<Rightarrow> tensor" where
  "add_self_loops adj = tabulate (shape adj) (\<lambda>idx. if idx ! 0 = idx ! 1 then 1 else elem adj idx)"

text \<open>
  Modelled from the spec: the absent \<open>get_transform\<close> with normalization and pooling
  switched off, which leaves the pruning and the self-loop option.
\<close>

definition prune_transform :: "bool \<Rightarrow> real \<Rightarrow> tensor \<Rightarrow> tensor" where
  "prune_transform add_self keep adj =
     (let pruned = percentile_prune keep adj
      in if add_self then add_self_loops pruned else pruned)"

section \<open>Regularization of the plain models\<close>

text \<open>
  \<open>models/model_layers.py\<close>: \<open>GraphNetwork.regularization\<close>, \<open>MLP.regularization\<close>
  and \<open>LogisticRegression.regularization\<close> are all \<open>return 0.0\<close>; \<open>GCN\<close>, \<open>SGC\<close> and
  \<open>LCG\<close> inherit the method of \<open>GraphNetwork\<close>. The instance and the argument are
  not read.
\<close>

definition GraphNetwork_regularization :: "'m \<Rightarrow> real \<Rightarrow> pyval" where
  "GraphNetwork_regularization self reg_lambda = PyFloat 0.0"

definition MLP_regularization :: "'m \<Rightarrow> real \<Rightarrow> pyval" where
  "MLP_regularization self reg_lambda = PyFloat 0.0"

definition LogisticRegression_regularization :: "'m \<Rightarrow> real \<Rightarrow> pyval" where
  "LogisticRegression_regularization self reg_lambda = PyFloat 0.0"

text \<open>
  \<open>models.py\<close>: \<open>GraphNetwork.regularization\<close> and \<open>MLP.regularization\<close> take no
  \<open>reg_lambda\<close> and are \<open>return []\<close>.
\<close>

definition models_GraphNetwork_regularization :: "'m \<Rightarrow> pyval" where
  "models_GraphNetwork_regularization self = PyList []"

definition models_MLP_regularization :: "'m \<Rightarrow> pyval" where
  "models_MLP_regularization self = PyList []"

text \<open>
  \<open>main.py\<close>: \<open>other_loss = sum([r * l for r, l in zip(my_model.regularization(), lambdas)])\<close>.
  Iterating a float raises \<open>TypeError\<close>; the terms of a list are multiplied with the
  lambdas pairwise, the shorter list deciding the length.
\<close>

fun term_value :: "pyval \<Rightarrow> error + real" where
  "term_value (PyFloat r) = Inr r"
| "term_value (PyList _) = Inl TypeError"

fun weighted_terms :: "pyval list \<Rightarrow> real list \<Rightarrow> error + real" where
  "weighted_terms (r # rs) (l # ls) =
     (case term_value r of
        Inl e \<Rightarrow> Inl e
      | Inr v \<Rightarrow> (case weighted_terms rs ls of Inl e \<Rightarrow> Inl e | Inr s \<Rightarrow> Inr (v * l + s)))"
| "weighted_terms _ _ = Inr 0"

fun other_loss :: "pyval \<Rightarrow> real list \<Rightarrow> error + real" where
  "other_loss (PyList rs) lambdas = weighted_terms rs lambdas"
| "other_loss (PyFloat _) lambdas = Inl TypeError"

section \<open>Partial reload of a parameter snapshot\<close>

text \<open>
  A value of a saved snapshot: a tensor, an \<open>nn.Parameter\<close> (unwrapped to its \<open>.data\<close>
  before the copy), or any other Python object.
\<close>

datatype saved = SavedTensor tensor | SavedParameter tensor | SavedOther

text \<open>
  \<open>dst.copy_(src)\<close> of \<open>torch\<close>: \<open>src\<close> must be broadcastable to the shape of \<open>dst\<close>,
  otherwise a \<open>RuntimeError\<close> is raised and \<open>dst\<close> is untouched; a source that is not a
  tensor is a \<open>TypeError\<close>.
\<close>

definition compatible :: "nat list \<Rightarrow> nat list \<Rightarrow> bool" where
  "compatible dst src = (broadcast_shapes dst src = Inr dst)"

definition Tensor_copy :: "tensor \<Rightarrow> saved \<Rightarrow> error + tensor" where
  "Tensor_copy self src =
     (case src of
        SavedTensor t \<Rightarrow>
          if compatible (shape self) (shape t) then Inr (tabulate (shape self) (bat t))
          else Inl RuntimeError
      | SavedParameter t \<Rightarrow>
          if compatible (shape self) (shape t) then Inr (tabulate (shape self) (bat t))
          else Inl RuntimeError
      | SavedOther \<Rightarrow> Inl TypeError)"

text \<open>
  \<open>GraphNetwork.load_state_dict\<close>. \<open>own_state\<close> is \<open>self.state_dict()\<close>, whose tensors share
  their storage with the parameters of the model, so the copy changes the model; the
  second argument is \<open>state_dict.items()\<close>. An \<open>AttributeError\<close> or a \<open>RuntimeError\<close> of the copy
  is caught and the entry skipped; any other exception leaves the method.
\<close>

fun load_state_dict :: "(string \<rightharpoonup> tensor) \<Rightarrow> (string \<times> saved) list \<Rightarrow> error + (string \<rightharpoonup> tensor)" where
  "load_state_dict own_state [] = Inr own_state"
| "load_state_dict own_state ((name, param) # rest) =
     (case own_state name of
        None \<Rightarrow> load_state_dict own_state rest
      | Some p \<Rightarrow>
          (let param = (case param of SavedParameter d \<Rightarrow> SavedTensor d | _ \<Rightarrow> param)
           in case Tensor_copy p param of
                Inr p' \<Rightarrow> load_state_dict (own_state(name \<mapsto> p')) rest
              | Inl e \<Rightarrow>
                  if e = AttributeError \<or> e = RuntimeError then load_state_dict own_state rest
                  else Inl e))"

fun is_tensor :: "saved \<Rightarrow> bool" where
  "is_tensor SavedOther = False"
| "is_tensor _ = True"

fun payload :: "saved \<Rightarrow> tensor" where
  "payload (SavedTensor t) = t"
| "payload (SavedParameter t) = t"
| "payload SavedOther = \<lparr>shape = [], data = []\<rparr>"

text \<open>
  What a partial reload is to leave behind: a parameter named in the snapshot with a
  compatible shape holds the copy, every other parameter holds its prior value, and no
  parameter is added.
\<close>

definition restored :: "(string \<rightharpoonup> tensor) \<Rightarrow> (string \<times> saved) list \<Rightarrow> (string \<rightharpoonup> tensor)" where
  "restored own_state items name =
     (case own_state name of
        None \<Rightarrow> None
      | Some p \<Rightarrow>
          (case map_of items name of
             None \<Rightarrow> Some p
           | Some v \<Rightarrow>
               if compatible (shape p) (shape (payload v))
               then Some (tabulate (shape p) (bat (payload v)))
               else Some p))"

text \<open>
  The end of \<open>get_model\<close>: \<open>init_state_dict = my_model.state_dict()\<close>,
  \<open>init_state_dict.update(model_state)\<close>, \<open>my_model.load_state_dict(init_state_dict)\<close>. An
  ordered dictionary is the list of its items; \<open>dict_set\<close> is \<open>d[k] = v\<close>.
\<close>

fun dict_set :: "('k \<times> 'v) list \<Rightarrow> 'k \<Rightarrow> 'v \<Rightarrow> ('k \<times> 'v) list" where
  "dict_set [] k v = [(k, v)]"
| "dict_set ((k', v') # d) k v = (if k' = k then (k, v) # d else (k', v') # dict_set d k v)"

fun dict_update :: "('k \<times> 'v) list \<Rightarrow> ('k \<times> 'v) list \<Rightarrow> ('k \<times> 'v) list" where
  "dict_update d [] = d"
| "dict_update d ((k, v) # other) = dict_update (dict_set d k v) other"

definition state_dict :: "(string \<times> tensor) list \<Rightarrow> (string \<times> saved) list" where
  "state_dict params = map (\<lambda>(name, p). (name, SavedTensor p)) params"

definition get_model_restore ::
  "(string \<times> tensor) list \<Rightarrow> (string \<times> saved) list \<Rightarrow> error + (string \<rightharpoonup> tensor)" where
  "get_model_restore params model_state =
     (let init_state_dict = dict_update (state_dict params) model_state
      in load_state_dict (map_of params) init_state_dict)"

section \<open>Intermediate tensors of \<open>AttentionLayer.forward\<close>\<close>

text \<open>
  The values \<open>AttentionLayer.forward\<close> passes through, named for the proofs: the
  scores of the linear layer on the flattened input, their exponentials in the shape
  \<open>[examples, nodes, heads]\<close>, and the sums over the nodes with the summed dimension
  kept.
\<close>

definition scores_of :: "AttentionLayer \<Rightarrow> tensor \<Rightarrow> nat \<Rightarrow> nat \<Rightarrow> tensor" where
  "scores_of self x m c =
     tabulate [m, nb_attention_head self]
       (\<lambda>idx. sum_list (map (\<lambda>k. elem (x\<lparr>shape := [m, c]\<rparr>) [idx ! 0, k]
                                  * elem (weight (attn self)) [idx ! 1, k]) [0..<c])
               + elem (bias (attn self)) [idx ! 1])"

definition exp_scores :: "AttentionLayer \<Rightarrow> tensor \<Rightarrow> nat \<Rightarrow> nat \<Rightarrow> nat \<Rightarrow> tensor" where
  "exp_scores self x E N C =
     (map_tensor exp (map_tensor (\<lambda>v. v * temperature self) (scores_of self x (E * N) C)))
       \<lparr>shape := [E, N, nb_attention_head self]\<rparr>"

definition totals :: "tensor \<Rightarrow> tensor" where
  "totals aw = (tabulate [shape aw ! 0, shape aw ! 2]
      (\<lambda>idx. sum_list (map (\<lambda>j. elem aw (take 1 idx @ j # drop 1 idx)) [0..<shape aw ! 1])))
      \<lparr>shape := [shape aw ! 0, 1, shape aw ! 2]\<rparr>"

section \<open>Intermediate tensors of \<open>ElementwiseGateLayer.forward\<close>\<close>

text \<open>
  The scores of the gate's linear layer on the flattened input, and their sigmoids in
  the shape \<open>[examples, nodes, 1]\<close>.
\<close>

definition gate_scores_of :: "ElementwiseGateLayer \<Rightarrow> tensor \<Rightarrow> nat \<Rightarrow> nat \<Rightarrow> tensor" where
  "gate_scores_of self x m c =
     tabulate [m, 1]
       (\<lambda>idx. sum_list (map (\<lambda>k. elem (x\<lparr>shape := [m, c]\<rparr>) [idx ! 0, k]
                                  * elem (weight (gate_attn self)) [idx ! 1, k]) [0..<c])
               + elem (bias (gate_attn self)) [idx ! 1])"

definition gate_of :: "ElementwiseGateLayer \<Rightarrow> tensor \<Rightarrow> nat \<Rightarrow> nat \<Rightarrow> nat \<Rightarrow> tensor" where
  "gate_of self x E N C = (map_tensor sigmoid (gate_scores_of self x (E * N) C))\<lparr>shape := [E, N, 1]\<rparr>"

section \<open>Indexing and shape lemmas\<close>

lemma valid_idx_Nil [simp]: "valid_idx [] idx = (idx = [])"
  by (simp add: valid_idx_def)

lemma valid_idx_Cons:
  "valid_idx (d # ds) idx = (\<exists>i is. idx = i # is \<and> i < d \<and> valid_idx ds is)"
  by (cases idx) (auto simp: valid_idx_def)

lemma valid_idx_Cons_Cons [simp]:
  "valid_idx (d # ds) (i # is) = (i < d \<and> valid_idx ds is)"
  by (simp add: valid_idx_def)

lemma valid_idx_length: "valid_idx s idx \<Longrightarrow> length idx = length s"
  by (simp add: valid_idx_def list_all2_lengthD)

lemma ravel_less: "valid_idx s idx \<Longrightarrow> ravel s idx < prod_list s"
proof (induction s arbitrary: idx)
  case Nil
  then show ?case by simp
next
  case (Cons d ds)
  then obtain i "is" where idx: "idx = i # is" "i < d" "valid_idx ds is"
    by (auto simp: valid_idx_Cons)
  have r: "ravel ds is < prod_list ds" using Cons.IH idx by simp
  have "i * prod_list ds + ravel ds is < i * prod_list ds + prod_list ds"
    using r by simp
  also have "\<dots> = Suc i * prod_list ds" by simp
  also have "\<dots> \<le> d * prod_list ds"
    using idx(2) by (intro mult_le_mono1) simp
  finally show ?case using idx by simp
qed

lemma unravel_ravel: "valid_idx s idx \<Longrightarrow> unravel s (ravel s idx) = idx"
proof (induction s arbitrary: idx)
  case Nil
  then show ?case by simp
next
  case (Cons d ds)
  then obtain i "is" where idx: "idx = i # is" "i < d" "valid_idx ds is"
    by (auto simp: valid_idx_Cons)
  have r: "ravel ds is < prod_list ds" using ravel_less idx by simp
  show ?case using Cons.IH[OF idx(3)] r idx by simp
qed

lemma valid_unravel: "k < prod_list s \<Longrightarrow> valid_idx s (unravel s k)"
proof (induction s arbitrary: k)
  case Nil
  then show ?case by simp
next
  case (Cons d ds)
  have pos: "0 < prod_list ds" using Cons.prems by (cases "prod_list ds") auto
  have "k div prod_list ds < d"
    using Cons.prems pos by (simp add: less_mult_imp_div_less mult.commute)
  moreover have "valid_idx ds (unravel ds (k mod prod_list ds))"
    using Cons.IH pos by simp
  ultimately show ?case by simp
qed

lemma ravel_unravel: "k < prod_list s \<Longrightarrow> ravel s (unravel s k) = k"
proof (induction s arbitrary: k)
  case Nil
  then show ?case by simp
next
  case (Cons d ds)
  have pos: "0 < prod_list ds" using Cons.prems by (cases "prod_list ds") auto
  show ?case using Cons.IH[of "k mod prod_list ds"] pos by simp
qed

lemma shape_tabulate [simp]: "shape (tabulate s f) = s"
  by (simp add: tabulate_def)

lemma length_data_tabulate [simp]: "length (data (tabulate s f)) = prod_list s"
  by (simp add: tabulate_def)

lemma wf_tabulate [simp]: "wf_tensor (tabulate s f)"
  by (simp add: wf_tensor_def)

lemma elem_tabulate: "valid_idx s idx \<Longrightarrow> elem (tabulate s f) idx = f idx"
  using ravel_less[of s idx] by (simp add: elem_def tabulate_def unravel_ravel)

lemma bidx_valid: "valid_idx s idx \<Longrightarrow> bidx s idx = idx"
proof (induction s arbitrary: idx)
  case Nil
  then show ?case by (simp add: bidx_def)
next
  case (Cons d ds)
  then obtain i "is" where idx: "idx = i # is" "i < d" "valid_idx ds is"
    by (auto simp: valid_idx_Cons)
  then show ?case using Cons.IH[OF idx(3)] by (auto simp: bidx_def)
qed

lemma bat_valid: "valid_idx (shape t) idx \<Longrightarrow> bat t idx = elem t idx"
  by (simp add: bat_def pad_shape_def valid_idx_length bidx_valid elem_def Let_def)

lemma bind_err_Inr [simp]: "bind_err (Inr v) f = f v"
  by (simp add: bind_err_def)

lemma bind_err_Inl [simp]: "bind_err (Inl e) f = Inl e"
  by (simp add: bind_err_def)

lemma view_rows:
  assumes "length (data t) = m * c" "0 < c"
  shows "view t [- 1, int c] = Inr (t\<lparr>shape := [m, c]\<rparr>)"
  using assms by (simp add: view_def Let_def)

lemma view3:
  assumes "length (data t) = a * b * c"
  shows "view t [int a, int b, int c] = Inr (t\<lparr>shape := [a, b, c]\<rparr>)"
  using assms by (simp add: view_def Let_def)

lemma view_flat:
  assumes "length (data t) = a * m" "0 < a"
  shows "view t [int a, - 1] = Inr (t\<lparr>shape := [a, m]\<rparr>)"
  using assms by (simp add: view_def Let_def)

lemma unsqueeze_3_1: "shape t = [a, b] \<Longrightarrow> unsqueeze t 1 = Inr (t\<lparr>shape := [a, 1, b]\<rparr>)"
  by (simp add: unsqueeze_def Let_def)

lemma unsqueeze_last: "shape t = [a, b, c] \<Longrightarrow> unsqueeze t (- 1) = Inr (t\<lparr>shape := [a, b, c, 1]\<rparr>)"
  by (simp add: unsqueeze_def Let_def)

lemma unsqueeze_before_last:
  "shape t = [a, b, c] \<Longrightarrow> unsqueeze t (- 2) = Inr (t\<lparr>shape := [a, b, 1, c]\<rparr>)"
  by (simp add: unsqueeze_def Let_def numeral_2_eq_2)

lemma broadcast_keepdim: "broadcast_shapes [a, b, c] [a, 1, c] = Inr [a, b, c]"
  by (simp add: broadcast_shapes_def pad_shape_def)

lemma broadcast_outer: "broadcast_shapes [a, b, c, 1] [a, b, 1, h] = Inr [a, b, c, h]"
  by (simp add: broadcast_shapes_def pad_shape_def)

lemma sum_dim_1_of_3:
  "shape t = [a, b, c] \<Longrightarrow>
   sum_dim t 1 = Inr (tabulate [a, c] (\<lambda>idx. sum_list (map (\<lambda>j. elem t (take 1 idx @ j # drop 1 idx)) [0..<b])))"
  by (simp add: sum_dim_def)

lemma sum_dim_1_of_4:
  "shape t = [a, b, c, d] \<Longrightarrow>
   sum_dim t 1 = Inr (tabulate [a, c, d] (\<lambda>idx. sum_list (map (\<lambda>j. elem t (take 1 idx @ j # drop 1 idx)) [0..<b])))"
  by (simp add: sum_dim_def)

lemma sum_list_upt_sum: "sum_list (map f [0..<n]) = (\<Sum>i<n. f i)"
  by (simp add: interv_sum_list_conv_sum_set_nat atLeast0LessThan)

lemma AttentionLayer_forward_weights:
  assumes x: "shape x = [E, N, C]" "wf_tensor x"
    and l: "shape (weight (attn self)) = [nb_attention_head self, C]"
           "shape (bias (attn self)) = [nb_attention_head self]"
    and pos: "0 < C" "0 < E"
  shows "\<exists>applied. AttentionLayer_forward self x =
           Inr (applied, tabulate [E, N, nb_attention_head self]
                  (\<lambda>idx. bat (exp_scores self x E N C) idx / bat (totals (exp_scores self x E N C)) idx))"
proof -
  let ?H = "nb_attention_head self"
  let ?x2 = "x\<lparr>shape := [E * N, C]\<rparr>"
  let ?aw = "exp_scores self x E N C"
  let ?w = "tabulate [E, N, ?H] (\<lambda>idx. bat ?aw idx / bat (totals ?aw) idx)"
  have len: "length (data x) = E * N * C"
    using x by (simp add: wf_tensor_def)
  have v1: "view x [- 1, int C] = Inr ?x2"
    using len pos by (intro view_rows) simp_all
  have lin: "Linear_forward (attn self) ?x2 = Inr (scores_of self x (E * N) C)"
    using l by (simp add: Linear_forward_def scores_of_def)
  have len_aw: "length (data (map_tensor exp (map_tensor (\<lambda>v. v * temperature self)
        (scores_of self x (E * N) C)))) = E * N * ?H"
    by (simp add: map_tensor_def scores_of_def)
  have v2: "view (map_tensor exp (map_tensor (\<lambda>v. v * temperature self)
        (scores_of self x (E * N) C))) [int E, int N, int ?H] = Inr ?aw"
    unfolding exp_scores_def by (rule view3) (rule len_aw)
  have sh_aw: "shape ?aw = [E, N, ?H]"
    by (simp add: exp_scores_def)
  have sd: "sum_dim ?aw 1 = Inr (tabulate [E, ?H]
      (\<lambda>idx. sum_list (map (\<lambda>j. elem ?aw (take 1 idx @ j # drop 1 idx)) [0..<N])))"
    by (rule sum_dim_1_of_3) (rule sh_aw)
  have us: "unsqueeze (tabulate [E, ?H]
      (\<lambda>idx. sum_list (map (\<lambda>j. elem ?aw (take 1 idx @ j # drop 1 idx)) [0..<N]))) 1
      = Inr (totals ?aw)"
    by (simp add: unsqueeze_3_1 totals_def sh_aw)
  have sh_tot: "shape (totals ?aw) = [E, 1, ?H]"
    by (simp add: totals_def sh_aw)
  have dv: "binop (/) ?aw (totals ?aw) = Inr ?w"
    by (simp only: binop_def sh_aw sh_tot broadcast_keepdim bind_err_Inr)
  have v3: "view ?x2 [int E, int N, int C] = Inr (?x2\<lparr>shape := [E, N, C]\<rparr>)"
    by (rule view3) (simp add: len)
  have u1: "unsqueeze (?x2\<lparr>shape := [E, N, C]\<rparr>) (- 1) = Inr (?x2\<lparr>shape := [E, N, C, 1]\<rparr>)"
    by (simp add: unsqueeze_last)
  have u2: "unsqueeze ?w (- 2) = Inr (?w\<lparr>shape := [E, N, 1, ?H]\<rparr>)"
    by (simp add: unsqueeze_before_last)
  obtain ap where ap: "binop (*) (?x2\<lparr>shape := [E, N, C, 1]\<rparr>) (?w\<lparr>shape := [E, N, 1, ?H]\<rparr>) = Inr ap"
    "shape ap = [E, N, C, ?H]"
    using broadcast_outer[of E N C ?H] by (simp add: binop_def)
  obtain ap2 where ap2: "sum_dim ap 1 = Inr ap2" "shape ap2 = [E, C, ?H]"
    "length (data ap2) = E * (C * ?H)"
    using sum_dim_1_of_4[OF ap(2)] by simp
  have v4: "view ap2 [int E, - 1] = Inr (ap2\<lparr>shape := [E, C * ?H]\<rparr>)"
    using ap2 pos by (intro view_flat) simp_all
  show ?thesis
    by (simp only: AttentionLayer_forward_def x list.case v1 bind_err_Inr lin Let_def
        v2 sd us dv v3 u1 u2 ap ap2 v4) simp
qed

section \<open>The plain models add nothing to the loss\<close>

text \<open>
  C1. In \<open>models/model_layers.py\<close> the regularization of \<open>GraphNetwork\<close>
  (hence of GCN, SGC and LCG), of \<open>MLP\<close> and of \<open>LogisticRegression\<close> is the float 0 for
  every instance and every \<open>reg_lambda\<close>. In \<open>models.py\<close> the regularization of
  \<open>GraphNetwork\<close> and of \<open>MLP\<close> is the empty list, and the loss term the training driver
  builds from it is 0 for every list of lambdas.
\<close>

theorem C1_regularization_plain_models:
  "GraphNetwork_regularization self reg_lambda = PyFloat 0
   \<and> MLP_regularization self' reg_lambda = PyFloat 0
   \<and> LogisticRegression_regularization self'' reg_lambda = PyFloat 0
   \<and> models_GraphNetwork_regularization old = PyList []
   \<and> models_MLP_regularization old' = PyList []
   \<and> other_loss (models_GraphNetwork_regularization old) lambdas = Inr 0
   \<and> other_loss (models_MLP_regularization old') lambdas = Inr 0"
  by (simp add: GraphNetwork_regularization_def MLP_regularization_def
      LogisticRegression_regularization_def models_GraphNetwork_regularization_def
      models_MLP_regularization_def)

text \<open>
  C1, on \<open>models.py\<close>: its \<open>GraphNetwork.regularization\<close> returns a container, the
  empty list, and not the scalar 0.
\<close>

theorem C1_models_py_returns_list:
  "models_GraphNetwork_regularization
     \<lparr>on_cuda = False, emb = None, my_convs = [], use_gate = 0, gates = [], my_dropouts = [],
      attentionLayer = None, my_logistic_layers = []\<rparr> \<noteq> PyFloat 0"
  by (simp add: models_GraphNetwork_regularization_def)

section \<open>The attention weights of a head sum to one\<close>

lemma elem_exp_scores:
  assumes x: "shape x = [E, N, C]"
    and i: "e < E" "n < N" "h < nb_attention_head self"
  shows "elem (exp_scores self x E N C) [e, n, h] = exp (attention_score self x e n h)"
proof -
  let ?H = "nb_attention_head self"
  let ?k = "ravel [E, N, ?H] [e, n, h]"
  have v: "valid_idx [E * N, ?H] [e * N + n, h]"
  proof -
    have "e * N + n < e * N + N" using i by simp
    also have "\<dots> = Suc e * N" by simp
    also have "\<dots> \<le> E * N" using i by (intro mult_le_mono1) simp
    finally show ?thesis using i by simp
  qed
  have k: "?k = ravel [E * N, ?H] [e * N + n, h]"
    by (simp add: algebra_simps)
  have klt: "?k < E * N * ?H"
    unfolding k using ravel_less[OF v] by simp
  have xs: "\<And>c. elem (x\<lparr>shape := [E * N, C]\<rparr>) [e * N + n, c] = elem x [e, n, c]"
    by (simp add: elem_def x algebra_simps)
  have "elem (exp_scores self x E N C) [e, n, h]
        = exp (data (scores_of self x (E * N) C) ! ?k * temperature self)"
    using klt by (simp add: elem_def exp_scores_def map_tensor_def scores_of_def tabulate_def)
  also have "data (scores_of self x (E * N) C) ! ?k
        = elem (scores_of self x (E * N) C) [e * N + n, h]"
    unfolding k by (simp add: elem_def scores_of_def)
  also have "\<dots> = sum_list (map (\<lambda>c. elem x [e, n, c] * elem (weight (attn self)) [h, c]) [0..<C])
        + elem (bias (attn self)) [h]"
    unfolding scores_of_def by (simp add: elem_tabulate[OF v] xs)
  finally show ?thesis
    by (simp add: attention_score_def x)
qed

lemma bat_totals:
  assumes sh: "shape aw = [E, N, H]"
    and i: "e < E" "h < H"
  shows "bat (totals aw) [e, n, h] = (\<Sum>j<N. elem aw [e, j, h])"
proof -
  let ?g = "\<lambda>idx. sum_list (map (\<lambda>j. elem aw (take 1 idx @ j # drop 1 idx)) [0..<N])"
  have v: "valid_idx [E, H] [e, h]" using i by simp
  have b: "bidx [E, 1, H] [e, n, h] = [e, 0, h]"
    using i by (auto simp: bidx_def)
  have "bat (totals aw) [e, n, h] = data (tabulate [E, H] ?g) ! ravel [E, 1, H] [e, 0, h]"
    using b by (simp add: bat_def totals_def sh pad_shape_def)
  also have "ravel [E, 1, H] [e, 0, h] = ravel [E, H] [e, h]"
    by simp
  also have "data (tabulate [E, H] ?g) ! ravel [E, H] [e, h] = elem (tabulate [E, H] ?g) [e, h]"
    by (simp add: elem_def)
  also have "\<dots> = ?g [e, h]"
    by (rule elem_tabulate[OF v])
  finally show ?thesis
    by (simp add: sum_list_upt_sum)
qed

lemma normalized_sum_one:
  fixes f :: "nat \<Rightarrow> real"
  assumes "0 < N" "\<And>n. 0 < f n"
  shows "(\<Sum>n<N. f n / (\<Sum>j<N. f j)) = 1"
proof -
  have "0 < (\<Sum>j<N. f j)"
    using assms by (intro sum_pos) auto
  then show ?thesis
    by (simp add: sum_divide_distrib[symmetric])
qed



section \<open>The gate lies strictly between 0 and 1 and is applied before the ReLU\<close>

lemma sigmoid_bounds: "0 < sigmoid v \<and> sigmoid v < 1"
proof -
  have p: "1 < 1 + exp (- v)" by simp
  then have "0 < 1 + exp (- v)" by linarith
  moreover have "1 / (1 + exp (- v)) < 1" using p by (simp only: divide_less_eq_1_pos \<open>0 < 1 + exp (- v)\<close>)
  ultimately show ?thesis by (simp add: sigmoid_def)
qed

lemma ElementwiseGateLayer_forward_eq:
  assumes x: "shape x = [E, N, C]" "wf_tensor x"
    and l: "shape (weight (gate_attn self)) = [1, C]" "shape (bias (gate_attn self)) = [1]"
    and pos: "0 < C"
  shows "ElementwiseGateLayer_forward self x = Inr (gate_of self x E N C)"
proof -
  let ?x2 = "x\<lparr>shape := [E * N, C]\<rparr>"
  have len: "length (data x) = E * N * C"
    using x by (simp add: wf_tensor_def)
  have v1: "view x [- 1, int C] = Inr ?x2"
    using len pos by (intro view_rows) simp_all
  have lin: "Linear_forward (gate_attn self) ?x2 = Inr (gate_scores_of self x (E * N) C)"
    using l by (simp add: Linear_forward_def gate_scores_of_def)
  have v2: "view (map_tensor sigmoid (gate_scores_of self x (E * N) C)) [int E, int N, int 1]
      = Inr (gate_of self x E N C)"
    unfolding gate_of_def by (rule view3) (simp add: map_tensor_def gate_scores_of_def)
  show ?thesis
    using v2 by (simp only: ElementwiseGateLayer_forward_def x list.case v1 bind_err_Inr lin Let_def
        of_nat_1)
qed

lemma elem_gate_of:
  assumes x: "shape x = [E, N, C]"
    and i: "e < E" "n < N"
  shows "elem (gate_of self x E N C) [e, n, 0] = sigmoid (gate_score self x e n)"
proof -
  let ?k = "ravel [E, N, 1] [e, n, 0]"
  have v: "valid_idx [E * N, 1] [e * N + n, 0]"
  proof -
    have "e * N + n < e * N + N" using i by simp
    also have "\<dots> = Suc e * N" by simp
    also have "\<dots> \<le> E * N" using i by (intro mult_le_mono1) simp
    finally show ?thesis by simp
  qed
  have k: "?k = ravel [E * N, 1] [e * N + n, 0]"
    by (simp add: algebra_simps)
  have klt: "?k < E * N * 1"
    unfolding k using ravel_less[OF v] by simp
  have xs: "\<And>c. elem (x\<lparr>shape := [E * N, C]\<rparr>) [e * N + n, c] = elem x [e, n, c]"
    by (simp add: elem_def x algebra_simps)
  have "elem (gate_of self x E N C) [e, n, 0]
        = sigmoid (data (gate_scores_of self x (E * N) C) ! ?k)"
    using klt by (simp add: elem_def gate_of_def map_tensor_def gate_scores_of_def tabulate_def)
  also have "data (gate_scores_of self x (E * N) C) ! ?k
        = elem (gate_scores_of self x (E * N) C) [e * N + n, 0]"
    unfolding k by (simp add: elem_def gate_scores_of_def)
  also have "\<dots> = sum_list (map (\<lambda>c. elem x [e, n, c] * elem (weight (gate_attn self)) [0, c]) [0..<C])
        + elem (bias (gate_attn self)) [0]"
    unfolding gate_scores_of_def by (subst elem_tabulate[OF v]) (simp add: xs)
  finally show ?thesis
    by (simp add: gate_score_def x)
qed

lemma broadcast_gate: "broadcast_shapes [a, b, 1] [a, b, c] = Inr [a, b, c]"
  by (simp add: broadcast_shapes_def pad_shape_def)

lemma elem_map_tensor:
  assumes "valid_idx (shape t) idx" "wf_tensor t"
  shows "elem (map_tensor f t) idx = f (elem t idx)"
  using ravel_less[OF assms(1)] assms(2)
  by (simp add: elem_def map_tensor_def wf_tensor_def)

lemma bat_gate:
  assumes sh: "shape g = [E, N, 1]" and i: "e < E" "n < N"
  shows "bat g [e, n, c] = elem g [e, n, 0]"
proof -
  have "bidx [E, N, 1] [e, n, c] = [e, n, 0]"
    using i by (auto simp: bidx_def)
  then show ?thesis
    by (simp add: bat_def sh pad_shape_def elem_def)
qed



section \<open>Calling the network runs the supervised mode\<close>

text \<open>
  C9. \<open>GraphNetwork.forward(x)\<close> is \<open>GraphNetwork.supervised(x)\<close> for every network and
  every input, also where both raise.
\<close>

theorem C9_forward_is_supervised: "GraphNetwork_forward self x = supervised self x"
  by (simp add: GraphNetwork_forward_def supervised_def split: list.splits)

section \<open>A partial reload never aborts\<close>

lemma copy_tensor:
  "is_tensor v \<Longrightarrow>
   Tensor_copy p (case v of SavedParameter d \<Rightarrow> SavedTensor d | _ \<Rightarrow> v) =
     (if compatible (shape p) (shape (payload v)) then Inr (tabulate (shape p) (bat (payload v)))
      else Inl RuntimeError)"
  by (cases v) (simp_all add: Tensor_copy_def)

lemma load_state_dict_restored:
  assumes "distinct (map fst items)" "list_all (\<lambda>kv. is_tensor (snd kv)) items"
  shows "load_state_dict own_state items = Inr (restored own_state items)"
  using assms
proof (induction items arbitrary: own_state)
  case Nil
  show ?case by (simp add: restored_def fun_eq_iff split: option.splits)
next
  case (Cons kv rest)
  obtain name v where kv: "kv = (name, v)" by (cases kv)
  have d: "distinct (map fst rest)" "name \<notin> fst ` set rest" "is_tensor v"
    "list_all (\<lambda>kv. is_tensor (snd kv)) rest"
    using Cons.prems kv by auto
  have nk: "map_of rest name = None"
    using d(2) by (simp add: map_of_eq_None_iff)
  show ?case
  proof (cases "own_state name")
    case None
    have "restored own_state rest = restored own_state (kv # rest)"
      using None by (auto simp: restored_def fun_eq_iff kv split: option.splits)
    then show ?thesis
      using None Cons.IH[OF d(1,4), of own_state] by (simp add: kv)
  next
    case (Some p)
    show ?thesis
    proof (cases "compatible (shape p) (shape (payload v))")
      case True
      let ?own = "own_state(name \<mapsto> tabulate (shape p) (bat (payload v)))"
      have eq: "restored ?own rest = restored own_state (kv # rest)"
        using Some True nk by (auto simp: restored_def fun_eq_iff kv split: option.splits)
      have ih: "load_state_dict ?own rest = Inr (restored ?own rest)"
        by (rule Cons.IH[OF d(1,4)])
      have step: "load_state_dict own_state (kv # rest) = load_state_dict ?own rest"
        using Some True by (simp add: kv copy_tensor[OF d(3)] Let_def)
      show ?thesis
        by (simp only: step ih eq)
    next
      case False
      have "restored own_state rest = restored own_state (kv # rest)"
        using Some False nk by (auto simp: restored_def fun_eq_iff kv split: option.splits)
      then show ?thesis
        using Some False Cons.IH[OF d(1,4), of own_state]
        by (simp add: kv copy_tensor[OF d(3)] Let_def)
    qed
  qed
qed

lemma broadcast_dims_same: "broadcast_dims s s = Inr s"
  by (induction s) simp_all

lemma compatible_same: "compatible s s"
  by (simp add: compatible_def broadcast_shapes_def pad_shape_def broadcast_dims_same)

lemma tabulate_bat_same:
  assumes "wf_tensor t"
  shows "tabulate (shape t) (bat t) = t"
proof -
  have "map (\<lambda>k. bat t (unravel (shape t) k)) [0..<prod_list (shape t)]
        = map (\<lambda>k. data t ! k) [0..<prod_list (shape t)]"
  proof (rule map_cong[OF refl])
    fix k assume "k \<in> set [0..<prod_list (shape t)]"
    then have k: "k < prod_list (shape t)" by simp
    have "bat t (unravel (shape t) k) = elem t (unravel (shape t) k)"
      by (rule bat_valid[OF valid_unravel[OF k]])
    then show "bat t (unravel (shape t) k) = data t ! k"
      by (simp add: elem_def ravel_unravel[OF k])
  qed
  also have "\<dots> = data t"
    using map_nth[of "data t"] assms by (simp add: wf_tensor_def)
  finally show ?thesis
    by (simp add: tabulate_def)
qed

lemma map_of_dict_set: "map_of (dict_set d k v) = (map_of d)(k \<mapsto> v)"
  by (induction d) (auto simp: fun_eq_iff)

lemma fst_dict_set: "fst ` set (dict_set d k v) = insert k (fst ` set d)"
  by (induction d k v rule: dict_set.induct) (simp_all add: insert_commute)

lemma distinct_dict_set: "distinct (map fst d) \<Longrightarrow> distinct (map fst (dict_set d k v))"
proof (induction d)
  case Nil
  show ?case by simp
next
  case (Cons a d)
  obtain k' v' where a: "a = (k', v')" by (cases a)
  show ?case
    using Cons fst_dict_set[of d k v] by (auto simp: a)
qed

lemma map_of_dict_update:
  "distinct (map fst other) \<Longrightarrow> map_of (dict_update d other) = map_of d ++ map_of other"
proof (induction other arbitrary: d)
  case Nil
  show ?case by simp
next
  case (Cons kv other)
  obtain k v where kv: "kv = (k, v)" by (cases kv)
  have n: "map_of other k = None"
    using Cons.prems by (simp add: kv map_of_eq_None_iff)
  have "map_of (dict_update d (kv # other)) = map_of (dict_set d k v) ++ map_of other"
    using Cons.prems by (simp add: kv Cons.IH)
  also have "\<dots> = (map_of d)(k \<mapsto> v) ++ map_of other"
    by (simp only: map_of_dict_set)
  also have "\<dots> = map_of d ++ map_of (kv # other)"
    using n by (auto simp: kv fun_eq_iff map_add_def split: option.splits)
  finally show ?case .
qed

lemma distinct_dict_update: "distinct (map fst d) \<Longrightarrow> distinct (map fst (dict_update d other))"
  by (induction other arbitrary: d) (auto simp: distinct_dict_set)

lemma list_all_dict_set:
  "list_all P d \<Longrightarrow> P (k, v) \<Longrightarrow> list_all P (dict_set d k v)"
  by (induction d) auto

lemma list_all_dict_update:
  "list_all P d \<Longrightarrow> list_all P other \<Longrightarrow> list_all P (dict_update d other)"
  by (induction other arbitrary: d) (auto simp: list_all_dict_set)

lemma map_of_state_dict: "map_of (state_dict params) name = map_option SavedTensor (map_of params name)"
  by (induction params) (auto simp: state_dict_def)

text \<open>
  C2. For every snapshot whose values are tensors or parameters (a dictionary: the
  names of its items are distinct), \<open>load_state_dict\<close> returns without raising; an entry
  whose name the model has and whose shape is compatible is copied (verbatim when the
  shapes are equal), an entry with an unknown name or an incompatible shape is skipped,
  and every parameter not matched by a compatible entry keeps its prior value.
\<close>

theorem C2_load_state_dict_partial:
  assumes "distinct (map fst items)" "list_all (\<lambda>kv. is_tensor (snd kv)) items"
  shows "\<exists>own'. load_state_dict own_state items = Inr own'
     \<and> (\<forall>name p v. own_state name = Some p \<and> map_of items name = Some v
            \<and> compatible (shape p) (shape (payload v))
          \<longrightarrow> own' name = Some (tabulate (shape p) (bat (payload v))))
     \<and> (\<forall>name p v. own_state name = Some p \<and> map_of items name = Some v
            \<and> shape (payload v) = shape p \<and> wf_tensor (payload v)
          \<longrightarrow> own' name = Some (payload v))
     \<and> (\<forall>name p v. own_state name = Some p \<and> map_of items name = Some v
            \<and> \<not> compatible (shape p) (shape (payload v))
          \<longrightarrow> own' name = Some p)
     \<and> (\<forall>name. map_of items name = None \<longrightarrow> own' name = own_state name)
     \<and> (\<forall>name. own_state name = None \<longrightarrow> own' name = None)"
proof -
  have r: "load_state_dict own_state items = Inr (restored own_state items)"
    by (rule load_state_dict_restored[OF assms])
  have same: "tabulate (shape p) (bat (payload v)) = payload v"
    if "shape (payload v) = shape p" "wf_tensor (payload v)" for p v
    using that tabulate_bat_same[of "payload v"] by simp
  show ?thesis
    by (rule exI[of _ "restored own_state items"])
       (use r same in \<open>auto simp: restored_def compatible_same split: option.splits\<close>)
qed

theorem C2_load_state_dict_witness:
  "\<exists>own'.
     load_state_dict
       [''w'' \<mapsto> \<lparr>shape = [2], data = [1, 2]\<rparr>, ''b'' \<mapsto> \<lparr>shape = [1], data = [0]\<rparr>]
       [(''w'', SavedTensor \<lparr>shape = [2], data = [5, 6]\<rparr>),
        (''b'', SavedTensor \<lparr>shape = [3], data = [7, 8, 9]\<rparr>),
        (''other'', SavedParameter \<lparr>shape = [1], data = [4]\<rparr>)] = Inr own'
     \<and> own' ''w'' = Some \<lparr>shape = [2], data = [5, 6]\<rparr>
     \<and> own' ''b'' = Some \<lparr>shape = [1], data = [0]\<rparr>
     \<and> own' ''other'' = None"
proof -
  let ?own = "[''w'' \<mapsto> \<lparr>shape = [2], data = [1, 2]\<rparr>, ''b'' \<mapsto> \<lparr>shape = [1], data = [0]\<rparr>]"
  let ?items = "[(''w'', SavedTensor \<lparr>shape = [2], data = [5, 6]\<rparr>),
        (''b'', SavedTensor \<lparr>shape = [3], data = [7, 8, 9]\<rparr>),
        (''other'', SavedParameter \<lparr>shape = [1], data = [4]\<rparr>)]"
  have d: "distinct (map fst ?items)" by simp
  have t: "list_all (\<lambda>kv. is_tensor (snd kv)) ?items" by simp
  obtain own' where l: "load_state_dict ?own ?items = Inr own'"
    and cp: "\<forall>name p v. ?own name = Some p \<and> map_of ?items name = Some v
            \<and> shape (payload v) = shape p \<and> wf_tensor (payload v)
          \<longrightarrow> own' name = Some (payload v)"
    and sk: "\<forall>name p v. ?own name = Some p \<and> map_of ?items name = Some v
            \<and> \<not> compatible (shape p) (shape (payload v))
          \<longrightarrow> own' name = Some p"
    and un: "\<forall>name. ?own name = None \<longrightarrow> own' name = None"
    using C2_load_state_dict_partial[OF d t, of ?own] by blast
  have c: "\<not> compatible [1] [3]"
    by (simp add: compatible_def broadcast_shapes_def pad_shape_def)
  have w: "own' ''w'' = Some \<lparr>shape = [2], data = [5, 6]\<rparr>"
    using cp[rule_format, of "''w''" "\<lparr>shape = [2], data = [1, 2]\<rparr>"
        "SavedTensor \<lparr>shape = [2], data = [5, 6]\<rparr>"]
    by (simp add: wf_tensor_def)
  have b: "own' ''b'' = Some \<lparr>shape = [1], data = [0]\<rparr>"
    using c sk[rule_format, of "''b''" "\<lparr>shape = [1], data = [0]\<rparr>"
        "SavedTensor \<lparr>shape = [3], data = [7, 8, 9]\<rparr>"]
    by simp
  have o: "own' ''other'' = None"
    using un[rule_format, of "''other''"] by simp
  show ?thesis
    using l w b o by blast
qed

text \<open>
  The restore at the end of \<open>get_model\<close> leaves the same state behind: the entries the
  snapshot does not override are the model's own tensors, copied onto themselves.
\<close>

lemma get_model_restore_partial:
  assumes p: "distinct (map fst params)" "list_all (\<lambda>kv. wf_tensor (snd kv)) params"
    and m: "distinct (map fst model_state)" "list_all (\<lambda>kv. is_tensor (snd kv)) model_state"
  shows "get_model_restore params model_state = Inr (restored (map_of params) model_state)"
proof -
  let ?init = "dict_update (state_dict params) model_state"
  have d: "distinct (map fst ?init)"
    using p(1) by (intro distinct_dict_update) (simp add: state_dict_def case_prod_unfold comp_def)
  have t: "list_all (\<lambda>kv. is_tensor (snd kv)) ?init"
    using m(2) by (intro list_all_dict_update) (simp_all add: state_dict_def list_all_iff case_prod_unfold)
  have mo: "map_of ?init = map_of (state_dict params) ++ map_of model_state"
    by (rule map_of_dict_update[OF m(1)])
  have wf: "wf_tensor q" if "map_of params name = Some q" for name q
    using map_of_SomeD[OF that] p(2) by (auto simp: list_all_iff)
  have "restored (map_of params) ?init name = restored (map_of params) model_state name" for name
  proof (cases "map_of params name")
    case None
    then show ?thesis by (simp add: restored_def)
  next
    case (Some q)
    then have q: "map_of params name = Some q" .
    show ?thesis
    proof (cases "map_of model_state name")
      case None
      have "map_of ?init name = Some (SavedTensor q)"
        using None q by (simp add: mo map_add_def map_of_state_dict)
      then show ?thesis
        using None q tabulate_bat_same[OF wf[OF q]] compatible_same[of "shape q"]
        by (simp add: restored_def)
    next
      case (Some v)
      then have "map_of ?init name = Some v"
        by (simp add: mo map_add_def)
      then show ?thesis
        using Some q by (simp add: restored_def)
    qed
  qed
  then have "restored (map_of params) ?init = restored (map_of params) model_state"
    by (simp add: fun_eq_iff)
  then show ?thesis
    using load_state_dict_restored[OF d t, of "map_of params"]
    by (simp add: get_model_restore_def Let_def)
qed

section \<open>The constructor of \<open>SparseLogisticRegression\<close> and its Laplacian\<close>

lemma diagonal_position:
  fixes i j C :: nat
  assumes "i < C" "j < C"
  shows "((i * C + j) mod (C + 1) = 0) = (i = j)"
proof (cases "i \<le> j")
  case True
  have "i * C + j = (j - i) + i * (C + 1)"
    using True by (simp add: algebra_simps)
  then have "(i * C + j) mod (C + 1) = (j - i) mod (C + 1)"
    by (simp only: mod_mult_self1)
  also have "\<dots> = j - i"
    using assms by simp
  finally show ?thesis using True by auto
next
  case False
  then have lt: "j < i" by simp
  have "i * C + j = (C + 1 - (i - j)) + (i - 1) * (C + 1)"
  proof -
    have "(C + 1 - (i - j)) + (i - 1) * (C + 1) + (i - j) = (C + 1) + (i - 1) * (C + 1)"
      using assms lt by simp
    also have "\<dots> = i * (C + 1)"
      using lt by (cases i) simp_all
    also have "\<dots> = i * C + j + (i - j)"
      using lt by (simp add: algebra_simps)
    finally show ?thesis by simp
  qed
  then have "(i * C + j) mod (C + 1) = (C + 1 - (i - j)) mod (C + 1)"
    by (simp only: mod_mult_self1)
  also have "\<dots> = C + 1 - (i - j)"
    using lt assms by simp
  finally show ?thesis using lt assms by auto
qed

lemma below_square:
  fixes i j C :: nat
  assumes "i * C + j < C * C" "j < C"
  shows "i < C"
proof (rule ccontr)
  assume "\<not> i < C"
  then have "C * C \<le> i * C" by (intro mult_le_mono1) simp
  then show False using assms(1) by linarith
qed

lemma diagonal_below_square:
  fixes i C :: nat
  assumes "i < C"
  shows "i * C + i < C * C"
proof -
  have "i * C + i < i * C + C" using assms by simp
  also have "\<dots> = Suc i * C" by simp
  also have "\<dots> \<le> C * C" using assms by (intro mult_le_mono1) simp
  finally show ?thesis .
qed

lemma filled_position:
  fixes i j C :: nat
  assumes "j < C"
  shows "((i * C + j) mod (C + 1) = 0 \<and> i * C + j < C * C) = (i = j)"
proof
  assume a: "(i * C + j) mod (C + 1) = 0 \<and> i * C + j < C * C"
  then have "i < C" using below_square[of i C j] assms by simp
  then show "i = j" using a diagonal_position[of i C j] assms by simp
next
  assume "i = j"
  then show "(i * C + j) mod (C + 1) = 0 \<and> i * C + j < C * C"
    using assms diagonal_position[of i C j] diagonal_below_square[of i C] by simp
qed

lemma ravel2: "ravel [R, C] [i, j] = i * C + j"
  by simp

lemma index2_less:
  fixes i j R C :: nat
  assumes "i < R" "j < C"
  shows "i * C + j < R * C"
  using ravel_less[of "[R, C]" "[i, j]"] assms by simp

lemma np_fill_diagonal_matrix:
  assumes sh: "shape a = [R, C]" and wf: "wf_tensor a"
  shows "\<exists>a'. np_fill_diagonal a v = Inr a' \<and> shape a' = [R, C] \<and> wf_tensor a'
           \<and> (\<forall>i<R. \<forall>j<C. elem a' [i, j] = (if i = j then v else elem a [i, j]))"
proof -
  let ?a' = "a\<lparr>data := map (\<lambda>k. if k mod (C + 1) = 0 \<and> k < C * C then v else data a ! k)
                             [0..<length (data a)]\<rparr>"
  have len: "length (data a) = R * C"
    using sh wf by (simp add: wf_tensor_def)
  have f: "np_fill_diagonal a v = Inr ?a'"
    by (simp add: np_fill_diagonal_def sh)
  have e: "elem ?a' [i, j] = (if i = j then v else elem a [i, j])" if "i < R" "j < C" for i j
    using index2_less[OF that] filled_position[OF that(2), of i]
    by (simp add: elem_def sh len)
  show ?thesis
    by (rule exI[of _ ?a']) (use f e in \<open>simp add: sh wf_tensor_def len\<close>)
qed

lemma elem_tabulate2:
  assumes "i < m" "j < n"
  shows "elem (tabulate [m, n] f) [i, j] = f [i, j]"
  using assms by (intro elem_tabulate) simp

lemma elem_tabulate1:
  assumes "i < n"
  shows "elem (tabulate [n] f) [i] = f [i]"
  using assms by (intro elem_tabulate) simp

lemma elem_in_data:
  assumes "valid_idx (shape t) idx" "wf_tensor t"
  shows "elem t idx \<in> set (data t)"
  using ravel_less[OF assms(1)] assms(2) by (simp add: elem_def wf_tensor_def)

lemma broadcast_same: "broadcast_shapes s s = Inr s"
  by (simp add: broadcast_shapes_def pad_shape_def broadcast_dims_same)

lemma binop_same_shape:
  assumes "shape a = s" "shape b = s"
  shows "binop f a b = Inr (tabulate s (\<lambda>idx. f (bat a idx) (bat b idx)))"
  by (simp add: binop_def assms broadcast_same)

lemma sum_dim_0_of_2:
  assumes "shape t = [m, n]"
  shows "sum_dim t 0 = Inr (tabulate [n] (\<lambda>idx. \<Sum>i<m. elem t (i # idx)))"
  by (simp add: sum_dim_def assms sum_list_upt_sum)

lemma degrees_matrix:
  assumes sh: "shape A = [m, n]"
  shows "\<exists>D. degrees A = Inr D \<and> shape D = [n] \<and> length (data D) = n
           \<and> (\<forall>j<n. elem D [j] = degree A j)"
proof -
  let ?s = "tabulate [n] (\<lambda>idx. \<Sum>i<m. elem A (i # idx))"
  let ?D = "map_tensor (\<lambda>v. v + epsilon) ?s"
  have d: "degrees A = Inr ?D"
    by (simp add: degrees_def sum_dim_0_of_2[OF sh])
  have e: "elem ?D [j] = degree A j" if "j < n" for j
  proof -
    have "elem ?D [j] = elem ?s [j] + epsilon"
      using that by (intro elem_map_tensor) simp_all
    also have "elem ?s [j] = (\<Sum>i<m. elem A [i, j])"
      by (rule elem_tabulate1[OF that])
    finally show ?thesis by (simp add: degree_def sh)
  qed
  show ?thesis
    by (rule exI[of _ ?D]) (use d e in \<open>simp add: map_tensor_def\<close>)
qed

lemma powr_neg_half:
  fixes x :: real
  assumes "0 < x"
  shows "x powr (- 0.5) = 1 / sqrt x"
proof -
  have "x powr (- 0.5) = inverse (x powr (1 / 2))"
    by (simp add: powr_minus)
  also have "x powr (1 / 2) = sqrt x"
    using assms by (simp add: powr_half_sqrt)
  finally show ?thesis by (simp add: inverse_eq_divide)
qed

lemma elem_vector: "elem \<lparr>shape = [n], data = xs\<rparr> [j] = xs ! j"
  by (simp add: elem_def)

lemma np_power_vector:
  assumes sh: "shape D = [n]" "length (data D) = n"
    and pos: "\<forall>j<n. 0 < elem D [j]"
  shows "\<exists>s. np_power D (- 0.5) = Inr s \<and> shape s = [n]
           \<and> (\<forall>j<n. elem s [j] = 1 / sqrt (elem D [j]))"
proof -
  let ?s = "map_tensor (\<lambda>v. v powr (- 0.5)) D"
  have all: "list_all (\<lambda>v. 0 < v) (data D)"
    using pos sh by (simp add: list_all_length elem_def)
  have p: "np_power D (- 0.5) = Inr ?s"
    using all by (simp add: np_power_def)
  have e: "elem ?s [j] = 1 / sqrt (elem D [j])" if "j < n" for j
  proof -
    have "elem ?s [j] = elem D [j] powr (- 0.5)"
      using that sh by (intro elem_map_tensor) (simp_all add: wf_tensor_def)
    then show ?thesis
      using pos that by (simp only: powr_neg_half)
  qed
  show ?thesis
    by (rule exI[of _ ?s]) (use p e in \<open>simp add: map_tensor_def sh\<close>)
qed

lemma np_diag_vector:
  assumes "shape s = [n]"
  shows "np_diag s = Inr (tabulate [n, n] (\<lambda>idx. if idx ! 0 = idx ! 1 then elem s [idx ! 0] else 0))"
  by (simp add: np_diag_def assms)

lemma np_dot_matrix:
  assumes "shape a = [m, k]" "shape b = [k, n]"
  shows "np_dot a b = Inr (tabulate [m, n] (\<lambda>idx. \<Sum>l<k. elem a [idx ! 0, l] * elem b [l, idx ! 1]))"
  by (simp add: np_dot_def assms sum_list_upt_sum)

lemma sum_diag_left:
  fixes f :: "nat \<Rightarrow> real"
  assumes "i < n"
  shows "(\<Sum>l<n. (if i = l then c else 0) * f l) = c * f i"
proof -
  have "(\<Sum>l<n. (if i = l then c else 0) * f l) = (\<Sum>l<n. if i = l then c * f l else 0)"
    by (intro sum.cong) auto
  then show ?thesis
    using assms by (simp add: sum.delta')
qed

lemma sum_diag_right:
  fixes f :: "nat \<Rightarrow> real"
  assumes "j < n"
  shows "(\<Sum>l<n. f l * (if l = j then c else 0)) = f j * c"
proof -
  have "(\<Sum>l<n. f l * (if l = j then c else 0)) = (\<Sum>l<n. if l = j then f l * c else 0)"
    by (intro sum.cong) auto
  then show ?thesis
    using assms by (simp add: sum.delta)
qed

lemma normalize_adj_matrix:
  assumes shD: "shape D = [n]" "length (data D) = n"
    and pos: "\<forall>j<n. 0 < elem D [j]"
    and shA: "shape A = [n, n]"
  shows "\<exists>N. normalize_adj D A = Inr N \<and> shape N = [n, n]
           \<and> (\<forall>i<n. \<forall>j<n. elem N [i, j] = elem A [i, j] / (sqrt (elem D [i]) * sqrt (elem D [j])))"
proof -
  obtain s where s: "np_power D (- 0.5) = Inr s" "shape s = [n]"
    "\<forall>j<n. elem s [j] = 1 / sqrt (elem D [j])"
    using np_power_vector[OF shD pos] by blast
  define dg where "dg = tabulate [n, n] (\<lambda>idx. if idx ! 0 = idx ! 1 then elem s [idx ! 0] else 0)"
  define m where "m = tabulate [n, n] (\<lambda>idx. \<Sum>l<n. elem dg [idx ! 0, l] * elem A [l, idx ! 1])"
  define N where "N = tabulate [n, n] (\<lambda>idx. \<Sum>l<n. elem m [idx ! 0, l] * elem dg [l, idx ! 1])"
  have sh: "shape dg = [n, n]" "shape m = [n, n]" "shape N = [n, n]"
    by (simp_all add: dg_def m_def N_def)
  have dg: "np_diag s = Inr dg"
    unfolding dg_def by (rule np_diag_vector[OF s(2)])
  have m: "np_dot dg A = Inr m"
    unfolding m_def by (rule np_dot_matrix) (simp_all add: shA sh)
  have N: "np_dot m dg = Inr N"
    unfolding N_def by (rule np_dot_matrix) (simp_all add: sh)
  have edg: "elem dg [i, j] = (if i = j then elem s [i] else 0)" if "i < n" "j < n" for i j
    unfolding dg_def by (subst elem_tabulate2[OF that]) simp
  have em: "elem m [i, j] = elem s [i] * elem A [i, j]" if ij: "i < n" "j < n" for i j
  proof -
    have "elem m [i, j] = (\<Sum>l<n. elem dg [i, l] * elem A [l, j])"
      unfolding m_def by (subst elem_tabulate2[OF ij]) simp
    also have "\<dots> = (\<Sum>l<n. (if i = l then elem s [i] else 0) * elem A [l, j])"
      using ij by (intro sum.cong refl) (simp add: edg)
    also have "\<dots> = elem s [i] * elem A [i, j]"
      by (rule sum_diag_left[OF ij(1)])
    finally show ?thesis .
  qed
  have eN: "elem N [i, j] = elem A [i, j] / (sqrt (elem D [i]) * sqrt (elem D [j]))"
    if ij: "i < n" "j < n" for i j
  proof -
    have "elem N [i, j] = (\<Sum>l<n. elem m [i, l] * elem dg [l, j])"
      unfolding N_def by (subst elem_tabulate2[OF ij]) simp
    also have "\<dots> = (\<Sum>l<n. elem m [i, l] * (if l = j then elem s [j] else 0))"
      using ij by (intro sum.cong refl) (auto simp: edg)
    also have "\<dots> = elem m [i, j] * elem s [j]"
      by (rule sum_diag_right[OF ij(2)])
    also have "\<dots> = elem s [i] * elem A [i, j] * elem s [j]"
      by (simp only: em[OF ij])
    finally show ?thesis
      using s(3) ij by simp
  qed
  have "normalize_adj D A = Inr N"
    by (simp only: normalize_adj_def s(1) bind_err_Inr dg m N)
  then show ?thesis
    using eN sh by (intro exI[of _ N]) simp
qed

lemma epsilon_pos: "0 < epsilon"
  by (simp add: epsilon_def)

lemma nonnegative_elem:
  assumes "nonnegative A" "wf_tensor A" "valid_idx (shape A) idx"
  shows "0 \<le> elem A idx"
  using elem_in_data[OF assms(3,2)] assms(1) by (simp add: nonnegative_def list_all_iff)

lemma degree_ge_epsilon:
  assumes "shape A = [m, n]" "wf_tensor A" "nonnegative A" "j < n"
  shows "epsilon \<le> degree A j"
proof -
  have "0 \<le> (\<Sum>i<m. elem A [i, j])"
    using assms by (intro sum_nonneg nonnegative_elem) simp_all
  then show ?thesis
    by (simp add: degree_def assms(1))
qed

lemma sqrt_degrees_ge:
  fixes x y :: real
  assumes "epsilon \<le> x" "epsilon \<le> y"
  shows "epsilon \<le> sqrt x * sqrt y"
proof -
  have e: "0 \<le> sqrt epsilon" using epsilon_pos by simp
  have "epsilon = sqrt epsilon * sqrt epsilon"
    using epsilon_pos by simp
  also have "\<dots> \<le> sqrt x * sqrt y"
    using assms e by (intro mult_mono) simp_all
  finally show ?thesis .
qed

lemma normalize_adj_finite:
  assumes sh: "shape A = [n, n]" and wf: "wf_tensor A" and nn: "nonnegative A"
  shows "\<exists>D N. degrees A = Inr D \<and> normalize_adj D A = Inr N \<and> shape N = [n, n]
           \<and> (\<forall>j<n. elem D [j] = degree A j \<and> epsilon \<le> elem D [j])
           \<and> (\<forall>i<n. \<forall>j<n. elem N [i, j] = elem A [i, j] / (sqrt (degree A i) * sqrt (degree A j))
                  \<and> 0 \<le> elem N [i, j] \<and> elem N [i, j] \<le> elem A [i, j] / epsilon)"
proof -
  obtain D where D: "degrees A = Inr D" "shape D = [n]" "length (data D) = n"
    "\<forall>j<n. elem D [j] = degree A j"
    using degrees_matrix[OF sh] by blast
  have ge: "epsilon \<le> degree A j" if "j < n" for j
    by (rule degree_ge_epsilon[OF sh wf nn that])
  have pos: "\<forall>j<n. 0 < elem D [j]"
    using D(4) ge epsilon_pos by fastforce
  obtain N where N: "normalize_adj D A = Inr N" "shape N = [n, n]"
    "\<forall>i<n. \<forall>j<n. elem N [i, j] = elem A [i, j] / (sqrt (elem D [i]) * sqrt (elem D [j]))"
    using normalize_adj_matrix[OF D(2,3) pos sh] by blast
  have b: "elem N [i, j] = elem A [i, j] / (sqrt (degree A i) * sqrt (degree A j))
      \<and> 0 \<le> elem N [i, j] \<and> elem N [i, j] \<le> elem A [i, j] / epsilon"
    if ij: "i < n" "j < n" for i j
  proof -
    have a: "0 \<le> elem A [i, j]"
      using ij by (intro nonnegative_elem[OF nn wf]) (simp add: sh)
    have s: "epsilon \<le> sqrt (degree A i) * sqrt (degree A j)"
      by (rule sqrt_degrees_ge[OF ge[OF ij(1)] ge[OF ij(2)]])
    have e: "elem N [i, j] = elem A [i, j] / (sqrt (degree A i) * sqrt (degree A j))"
      using N(3) D(4) ij by simp
    have "elem A [i, j] / (sqrt (degree A i) * sqrt (degree A j)) \<le> elem A [i, j] / epsilon"
      using a s epsilon_pos by (intro divide_left_mono) simp_all
    moreover have "0 \<le> elem A [i, j] / (sqrt (degree A i) * sqrt (degree A j))"
      using a s epsilon_pos by (intro divide_nonneg_nonneg) simp_all
    ultimately show ?thesis using e by simp
  qed
  show ?thesis
    by (rule exI[of _ D], rule exI[of _ N]) (use D N ge b in metis)
qed

lemma bat_elem2:
  assumes "shape t = [m, n]" "i < m" "j < n"
  shows "bat t [i, j] = elem t [i, j]"
  using assms by (intro bat_valid) simp

lemma build_laplacian_matrix:
  assumes sh: "shape A = [n, n]" and wf: "wf_tensor A" and nn: "nonnegative A"
  shows "\<exists>L. build_laplacian A = Inr L \<and> shape L = [n, n]
           \<and> (\<forall>i<n. \<forall>j<n. elem L [i, j] = laplacian_entry A i j)"
proof -
  obtain D N where D: "degrees A = Inr D" "\<forall>j<n. elem D [j] = degree A j \<and> epsilon \<le> elem D [j]"
    and N: "normalize_adj D A = Inr N" "shape N = [n, n]"
      "\<forall>i<n. \<forall>j<n. elem N [i, j] = elem A [i, j] / (sqrt (degree A i) * sqrt (degree A j))
         \<and> 0 \<le> elem N [i, j] \<and> elem N [i, j] \<le> elem A [i, j] / epsilon"
    using normalize_adj_finite[OF sh wf nn] by blast
  have shD: "shape D = [n]"
    using degrees_matrix[OF sh] D(1) by auto
  define L where "L = tabulate [n, n] (\<lambda>idx. bat (np_eye n) idx - bat N idx)"
  have sub: "binop (-) (np_eye n) N = Inr L"
    unfolding L_def by (rule binop_same_shape) (simp_all add: np_eye_def N(2))
  have eye: "elem (np_eye n) [i, j] = (if i = j then 1 else 0)" if "i < n" "j < n" for i j
    unfolding np_eye_def by (subst elem_tabulate2[OF that]) simp
  have e: "elem L [i, j] = laplacian_entry A i j" if ij: "i < n" "j < n" for i j
  proof -
    have "elem L [i, j] = bat (np_eye n) [i, j] - bat N [i, j]"
      unfolding L_def by (rule elem_tabulate2[OF ij])
    also have "bat (np_eye n) [i, j] = elem (np_eye n) [i, j]"
      using ij by (intro bat_elem2[of _ n n]) (simp_all add: np_eye_def)
    also have "bat N [i, j] = elem N [i, j]"
      using ij N(2) by (intro bat_elem2[of _ n n]) simp_all
    finally show ?thesis
      using N(3) ij eye[OF ij] by (simp add: laplacian_entry_def)
  qed
  have "build_laplacian A = Inr L"
    by (simp add: build_laplacian_def D(1) shD N(1) sub)
  then show ?thesis
    using e by (intro exI[of _ L]) (simp add: L_def)
qed

lemma quadratic_form_nonneg:
  fixes a :: "nat \<Rightarrow> nat \<Rightarrow> real" and d v :: "nat \<Rightarrow> real"
  assumes nn: "\<And>i j. i < n \<Longrightarrow> j < n \<Longrightarrow> 0 \<le> a i j"
    and sym: "\<And>i j. i < n \<Longrightarrow> j < n \<Longrightarrow> a i j = a j i"
    and d: "\<And>j. j < n \<Longrightarrow> d j = (\<Sum>i<n. a i j) + e"
    and e: "0 < e"
  shows "0 \<le> (\<Sum>j<n. (\<Sum>i<n. v i * ((if i = j then 1 else 0) - a i j / (sqrt (d i) * sqrt (d j)))) * v j)"
proof -
  define u where "u i = v i / sqrt (d i)" for i
  have dpos: "0 < d j" if "j < n" for j
  proof -
    have "0 \<le> (\<Sum>i<n. a i j)" using that by (intro sum_nonneg nn) simp_all
    then show ?thesis using d[OF that] e by simp
  qed
  have vu: "v j * v j = (u j * u j) * d j" if "j < n" for j
    using dpos[OF that] by (simp add: u_def)
  have tm: "(\<Sum>i<n. v i * ((if i = j then 1 else 0) - a i j / (sqrt (d i) * sqrt (d j)))) * v j
      = e * (u j * u j) + (\<Sum>i<n. a i j * (u j * u j)) - (\<Sum>i<n. a i j * (u i * u j))"
    if j: "j < n" for j
  proof -
    have "(\<Sum>i<n. v i * ((if i = j then 1 else 0) - a i j / (sqrt (d i) * sqrt (d j))))
        = (\<Sum>i<n. (if i = j then v i else 0)) - (\<Sum>i<n. a i j * u i / sqrt (d j))"
      unfolding sum_subtractf[symmetric]
      by (intro sum.cong refl) (simp add: u_def algebra_simps)
    also have "(\<Sum>i<n. (if i = j then v i else 0)) = v j"
      using j by (simp add: sum.delta)
    finally have inner: "(\<Sum>i<n. v i * ((if i = j then 1 else 0) - a i j / (sqrt (d i) * sqrt (d j))))
        = v j - (\<Sum>i<n. a i j * u i / sqrt (d j))" .
    have "(\<Sum>i<n. v i * ((if i = j then 1 else 0) - a i j / (sqrt (d i) * sqrt (d j)))) * v j
        = v j * v j - (\<Sum>i<n. a i j * u i / sqrt (d j)) * v j"
      unfolding inner by (simp only: left_diff_distrib)
    also have "(\<Sum>i<n. a i j * u i / sqrt (d j)) * v j = (\<Sum>i<n. a i j * (u i * u j))"
      unfolding sum_distrib_right by (intro sum.cong refl) (simp add: u_def)
    also have "v j * v j = e * (u j * u j) + (\<Sum>i<n. a i j * (u j * u j))"
      unfolding vu[OF j] d[OF j] sum_distrib_right[symmetric] by (simp add: algebra_simps)
    finally show ?thesis .
  qed
  define S1 where "S1 = (\<Sum>j<n. \<Sum>i<n. a i j * (u j * u j))"
  define S2 where "S2 = (\<Sum>j<n. \<Sum>i<n. a i j * (u i * u i))"
  define P where "P = (\<Sum>j<n. \<Sum>i<n. a i j * (u i * u j))"
  have "S2 = (\<Sum>i<n. \<Sum>j<n. a i j * (u i * u i))"
    unfolding S2_def by (rule sum.swap)
  also have "\<dots> = (\<Sum>i<n. \<Sum>j<n. a j i * (u i * u i))"
    by (intro sum.cong refl) (simp add: sym)
  finally have S12: "S2 = S1"
    by (simp add: S1_def)
  have "2 * P \<le> S1 + S2"
  proof -
    have "2 * P = (\<Sum>j<n. \<Sum>i<n. a i j * (2 * (u i * u j)))"
      unfolding P_def sum_distrib_left by (intro sum.cong refl) simp
    also have "\<dots> \<le> (\<Sum>j<n. \<Sum>i<n. a i j * (u j * u j + u i * u i))"
    proof (intro sum_mono mult_left_mono nn)
      fix i j
      have "0 \<le> (u i - u j) * (u i - u j)" by simp
      then show "2 * (u i * u j) \<le> u j * u j + u i * u i"
        by (simp add: algebra_simps)
    qed simp_all
    also have "\<dots> = S1 + S2"
      unfolding S1_def S2_def sum.distrib[symmetric] by (intro sum.cong refl) (simp add: algebra_simps)
    finally show ?thesis .
  qed
  then have P: "P \<le> S1" using S12 by simp
  have "(\<Sum>j<n. (\<Sum>i<n. v i * ((if i = j then 1 else 0) - a i j / (sqrt (d i) * sqrt (d j)))) * v j)
      = (\<Sum>j<n. e * (u j * u j) + (\<Sum>i<n. a i j * (u j * u j)) - (\<Sum>i<n. a i j * (u i * u j)))"
    by (intro sum.cong refl tm) simp
  also have "\<dots> = e * (\<Sum>j<n. u j * u j) + S1 - P"
    by (simp add: sum.distrib sum_subtractf sum_distrib_left S1_def P_def)
  finally have eq: "(\<Sum>j<n. (\<Sum>i<n. v i * ((if i = j then 1 else 0) - a i j / (sqrt (d i) * sqrt (d j)))) * v j)
      = e * (\<Sum>j<n. u j * u j) + S1 - P" .
  have "0 \<le> e * (\<Sum>j<n. u j * u j)"
  proof -
    have "0 \<le> (\<Sum>j<n. u j * u j)" by (intro sum_nonneg) simp
    then show ?thesis using e by simp
  qed
  then show ?thesis
    unfolding eq using P by simp
qed

lemma valid_idx2:
  assumes "valid_idx [R, C] idx"
  obtains i j where "idx = [i, j]" "i < R" "j < C"
  using assms by (auto simp: valid_idx_Cons)

lemma np_fill_diagonal_zero:
  assumes sh: "shape a = [R, C]" and wf: "wf_tensor a"
  shows "np_fill_diagonal a 0 = Inr (zero_diagonal a)"
proof -
  have len: "length (data a) = R * C"
    using sh wf by (simp add: wf_tensor_def)
  have "map (\<lambda>k. if k mod (C + 1) = 0 \<and> k < C * C then 0 else data a ! k) [0..<R * C]
      = map (\<lambda>k. (\<lambda>idx. if idx ! 0 = idx ! 1 then 0 else elem a idx) (unravel [R, C] k)) [0..<R * C]"
  proof (rule map_cong[OF refl])
    fix k assume "k \<in> set [0..<R * C]"
    then have k: "k < prod_list [R, C]" by simp
    obtain i j where idx: "unravel [R, C] k = [i, j]" "i < R" "j < C"
      using valid_unravel[OF k] by (rule valid_idx2)
    have "ravel [R, C] [i, j] = k"
      using ravel_unravel[OF k] unfolding idx(1) .
    then have kk: "k = i * C + j"
      by simp
    have "(k mod (C + 1) = 0 \<and> k < C * C) = (i = j)"
      unfolding kk by (rule filled_position[OF idx(3)])
    moreover have "elem a [i, j] = data a ! k"
      by (simp add: elem_def sh kk)
    ultimately show "(if k mod (C + 1) = 0 \<and> k < C * C then 0 else data a ! k)
        = (\<lambda>idx. if idx ! 0 = idx ! 1 then 0 else elem a idx) (unravel [R, C] k)"
      by (simp add: idx(1) del: unravel.simps)
  qed
  then have "a\<lparr>data := map (\<lambda>k. if k mod (C + 1) = 0 \<and> k < C * C then 0 else data a ! k)
                             [0..<length (data a)]\<rparr> = zero_diagonal a"
    by (simp add: zero_diagonal_def tabulate_def sh len)
  then show ?thesis
    by (simp add: np_fill_diagonal_def sh)
qed

lemma zero_diagonal_matrix:
  assumes "shape a = [R, C]"
  shows "shape (zero_diagonal a) = [R, C]" "wf_tensor (zero_diagonal a)"
    "\<And>i j. i < R \<Longrightarrow> j < C \<Longrightarrow> elem (zero_diagonal a) [i, j] = (if i = j then 0 else elem a [i, j])"
proof -
  show "shape (zero_diagonal a) = [R, C]" "wf_tensor (zero_diagonal a)"
    by (simp_all add: zero_diagonal_def assms)
  fix i j assume ij: "i < R" "j < C"
  show "elem (zero_diagonal a) [i, j] = (if i = j then 0 else elem a [i, j])"
    unfolding zero_diagonal_def assms by (subst elem_tabulate2[OF ij]) simp
qed

lemma zero_diagonal_nonnegative:
  assumes sh: "shape a = [R, C]" and wf: "wf_tensor a" and nn: "nonnegative a"
  shows "nonnegative (zero_diagonal a)"
proof -
  define f where "f idx = (if idx ! 0 = idx ! 1 then 0 else elem a idx)" for idx :: "nat list"
  have "0 \<le> f (unravel [R, C] k)" if "k < prod_list [R, C]" for k
    using nonnegative_elem[OF nn wf, of "unravel [R, C] k"] valid_unravel[OF that]
    by (simp add: sh f_def del: unravel.simps)
  then have "list_all (\<lambda>v. 0 \<le> v) (map (\<lambda>k. f (unravel [R, C] k)) [0..<prod_list [R, C]])"
    by (simp add: list_all_iff)
  then show ?thesis
    by (simp add: nonnegative_def zero_diagonal_def tabulate_def sh f_def del: unravel.simps)
qed

lemma symmetric_elem:
  assumes "symmetric a" "shape a = [R, C]" "i < R" "j < C"
  shows "elem a [i, j] = elem a [j, i]"
proof -
  have "\<forall>i\<in>{0..<R}. \<forall>j\<in>{0..<C}. elem a [i, j] = elem a [j, i]"
    using assms(1,2) by (simp add: symmetric_def list_all_iff)
  moreover have "i \<in> {0..<R}" "j \<in> {0..<C}"
    using assms(3,4) by simp_all
  ultimately show ?thesis by blast
qed

lemma sum_list_data_tabulate2:
  "sum_list (data (tabulate [m, n] f)) = (\<Sum>k<m. \<Sum>j<n. f [k, j])"
proof -
  have "sum_list (data (tabulate [m, n] f)) = (\<Sum>q<m * n. f (unravel [m, n] q))"
    by (simp add: tabulate_def sum_list_upt_sum)
  also have "\<dots> = (\<Sum>k<m. \<Sum>q = k * n..<k * n + n. f (unravel [m, n] q))"
    by (rule sum.nat_group[symmetric])
  also have "\<dots> = (\<Sum>k<m. \<Sum>j<n. f [k, j])"
  proof (rule sum.cong[OF refl])
    fix k assume "k \<in> {..<m}"
    then have k: "k < m" by simp
    have "(\<Sum>q = k * n..<k * n + n. f (unravel [m, n] q)) = (\<Sum>j = 0..<n. f (unravel [m, n] (j + k * n)))"
      using sum.shift_bounds_nat_ivl[of "\<lambda>q. f (unravel [m, n] q)" 0 "k * n" n]
      by (simp add: add.commute)
    also have "\<dots> = (\<Sum>j = 0..<n. f [k, j])"
    proof (rule sum.cong[OF refl])
      fix j assume "j \<in> {0..<n}"
      then have j: "j < n" by simp
      have "unravel [m, n] (ravel [m, n] [k, j]) = [k, j]"
        using k j by (intro unravel_ravel) simp
      then show "f (unravel [m, n] (j + k * n)) = f [k, j]"
        by (simp add: add.commute)
    qed
    finally show "(\<Sum>q = k * n..<k * n + n. f (unravel [m, n] q)) = (\<Sum>j<n. f [k, j])"
      by (simp add: atLeast0LessThan)
  qed
  finally show ?thesis .
qed

lemma torch_mm_matrix:
  assumes "shape a = [m, k]" "shape b = [k, n]"
  shows "torch_mm a b = Inr (tabulate [m, n] (\<lambda>idx. \<Sum>l<k. elem a [idx ! 0, l] * elem b [l, idx ! 1]))"
  by (simp add: torch_mm_def assms sum_list_upt_sum)

text \<open>
  C10. Constructing a \<open>SparseLogisticRegression\<close> writes into the caller's adjacency
  array: whatever else the constructor does, the array the reference points to
  afterwards has the shape it had, a zero wherever the row and the column index agree,
  and its other entries unchanged; no other array of the store is touched.
\<close>

theorem C10_constructor_zeroes_callers_diagonal:
  assumes "h adj = Some a" "shape a = [R, C]" "wf_tensor a"
  shows "\<exists>a'. fst (SparseLogisticRegression_init h nb_nodes input_dim adj out_dim cuda w b) adj = Some a'
           \<and> shape a' = [R, C]
           \<and> (\<forall>i<R. \<forall>j<C. elem a' [i, j] = (if i = j then 0 else elem a [i, j]))
           \<and> (\<forall>r. r \<noteq> adj \<longrightarrow>
                 fst (SparseLogisticRegression_init h nb_nodes input_dim adj out_dim cuda w b) r = h r)"
proof -
  obtain a' where a': "np_fill_diagonal a 0 = Inr a'" "shape a' = [R, C]"
    "\<forall>i<R. \<forall>j<C. elem a' [i, j] = (if i = j then 0 else elem a [i, j])"
    using np_fill_diagonal_matrix[OF assms(2,3), of 0] by blast
  have "fst (SparseLogisticRegression_init h nb_nodes input_dim adj out_dim cuda w b) = h(adj \<mapsto> a')"
    by (simp add: SparseLogisticRegression_init_def assms(1) a'(1) Let_def)
  then show ?thesis
    using a'(2,3) by simp
qed

theorem C10_constructor_witness:
  "\<exists>a'. fst (SparseLogisticRegression_init [0 \<mapsto> \<lparr>shape = [2, 2], data = [1, 2, 3, 4]\<rparr>]
                2 1 0 (Some 2) False [0, 0, 0, 0] [0, 0]) 0 = Some a'
     \<and> shape a' = [2, 2]
     \<and> elem a' [0, 0] = 0 \<and> elem a' [0, 1] = 2 \<and> elem a' [1, 0] = 3 \<and> elem a' [1, 1] = 0"
proof -
  let ?a = "\<lparr>shape = [2, 2], data = [1, 2, 3, 4]\<rparr>"
  let ?h = "[0 \<mapsto> ?a] :: store"
  have h: "?h 0 = Some ?a" by simp
  have sh: "shape ?a = [2, 2]" by simp
  have wf: "wf_tensor ?a" by (simp add: wf_tensor_def)
  obtain a' where a': "fst (SparseLogisticRegression_init ?h 2 1 0 (Some 2) False [0, 0, 0, 0] [0, 0]) 0 = Some a'"
    "shape a' = [2, 2]"
    "\<forall>i<2. \<forall>j<2. elem a' [i, j] = (if i = j then 0 else elem ?a [i, j])"
    using C10_constructor_zeroes_callers_diagonal
      [where h = "?h" and adj = 0 and a = "?a" and R = 2 and C = 2 and nb_nodes = 2
         and input_dim = 1 and out_dim = "Some 2" and cuda = False
         and w = "[0, 0, 0, 0]" and b = "[0, 0]", OF h sh wf]
    by blast
  have "elem a' [0, 0] = 0" "elem a' [0, 1] = 2" "elem a' [1, 0] = 3" "elem a' [1, 1] = 0"
    using a'(3)[rule_format, of 0 0] a'(3)[rule_format, of 0 1]
      a'(3)[rule_format, of 1 0] a'(3)[rule_format, of 1 1]
    by (simp_all add: elem_def)
  then show ?thesis
    using a'(1,2) by blast
qed



text \<open>
  The sign of the weights is used: with negative weights a degree can be negative, and
  the power leaves the real numbers.
\<close>

lemma negative_weights_leave_the_reals:
  "\<exists>D. degrees \<lparr>shape = [2, 2], data = [0, - 1, - 1, 0]\<rparr> = Inr D
     \<and> normalize_adj D \<lparr>shape = [2, 2], data = [0, - 1, - 1, 0]\<rparr> = Inl FloatingPointError"
  by (simp add: degrees_def sum_dim_def tabulate_def elem_def map_tensor_def normalize_adj_def
      np_power_def epsilon_def upt_rec)

section \<open>The Laplacian penalty\<close>

lemma SparseLogisticRegression_init_matrix:
  assumes h: "h adj = Some a" and sh: "shape a = [n, n]" and wf: "wf_tensor a"
    and nn: "nonnegative a"
  shows "\<exists>lap. SparseLogisticRegression_init h nb_nodes input_dim adj out_dim cuda w b =
           (h(adj \<mapsto> zero_diagonal a),
            Inr \<lparr>slr_nb_nodes = nb_nodes, slr_input_dim = input_dim, laplacian = lap,
                 slr_out_dim = (case out_dim of None \<Rightarrow> 2 | Some d \<Rightarrow> d), slr_on_cuda = cuda,
                 slr_my_logistic_layers =
                   [nn_Linear (nb_nodes * input_dim) (case out_dim of None \<Rightarrow> 2 | Some d \<Rightarrow> d) w b]\<rparr>)
         \<and> shape lap = [n, n]
         \<and> (\<forall>i<n. \<forall>j<n. elem lap [i, j] = laplacian_entry (zero_diagonal a) i j)"
proof -
  have f: "np_fill_diagonal a 0 = Inr (zero_diagonal a)"
    by (rule np_fill_diagonal_zero[OF sh wf])
  obtain lap where lap: "build_laplacian (zero_diagonal a) = Inr lap" "shape lap = [n, n]"
    "\<forall>i<n. \<forall>j<n. elem lap [i, j] = laplacian_entry (zero_diagonal a) i j"
    using build_laplacian_matrix[OF zero_diagonal_matrix(1,2)[OF sh]
        zero_diagonal_nonnegative[OF sh wf nn]] by blast
  show ?thesis
    by (rule exI[of _ lap]) (simp add: SparseLogisticRegression_init_def Let_def h f lap)
qed

lemma regularization_value:
  assumes l: "slr_my_logistic_layers self = [l]" "weight l = W"
    and W: "shape W = [m, n]" "wf_tensor W"
    and L: "shape (laplacian self) = [n, n]"
  shows "SparseLogisticRegression_regularization self reg_lambda =
           Inr (smoothness_penalty W (\<lambda>i j. elem (laplacian self) [i, j]) * reg_lambda)"
proof -
  define aW where "aW = map_tensor abs W"
  define M where "M = tabulate [m, n] (\<lambda>idx. \<Sum>i<n. elem aW [idx ! 0, i] * elem (laplacian self) [i, idx ! 1])"
  define reg where "reg = tabulate [m, n] (\<lambda>idx. bat M idx * bat aW idx)"
  have shaW: "shape aW = [m, n]"
    by (simp add: aW_def map_tensor_def W)
  have eaW: "elem aW [k, i] = \<bar>elem W [k, i]\<bar>" if "k < m" "i < n" for k i
    unfolding aW_def using that W by (intro elem_map_tensor) simp_all
  have mm: "torch_mm aW (laplacian self) = Inr M"
    unfolding M_def by (rule torch_mm_matrix[OF shaW L])
  have shM: "shape M = [m, n]" by (simp add: M_def)
  have mul: "binop (*) M aW = Inr reg"
    unfolding reg_def by (rule binop_same_shape[OF shM shaW])
  have eM: "elem M [k, j] = (\<Sum>i<n. \<bar>elem W [k, i]\<bar> * elem (laplacian self) [i, j])"
    if kj: "k < m" "j < n" for k j
  proof -
    have "elem M [k, j] = (\<Sum>i<n. elem aW [k, i] * elem (laplacian self) [i, j])"
      unfolding M_def by (subst elem_tabulate2[OF kj]) simp
    also have "\<dots> = (\<Sum>i<n. \<bar>elem W [k, i]\<bar> * elem (laplacian self) [i, j])"
      using kj by (intro sum.cong refl) (simp add: eaW)
    finally show ?thesis .
  qed
  have "sum_list (data reg) = (\<Sum>k<m. \<Sum>j<n. bat M [k, j] * bat aW [k, j])"
    unfolding reg_def by (rule sum_list_data_tabulate2)
  also have "\<dots> = (\<Sum>k<m. \<Sum>j<n. (\<Sum>i<n. \<bar>elem W [k, i]\<bar> * elem (laplacian self) [i, j]) * \<bar>elem W [k, j]\<bar>)"
  proof (intro sum.cong refl)
    fix k j assume "k \<in> {..<m}" "j \<in> {..<n}"
    then have kj: "k < m" "j < n" by simp_all
    have "bat M [k, j] = elem M [k, j]" "bat aW [k, j] = elem aW [k, j]"
      using kj shM shaW by (simp_all add: bat_elem2)
    then show "bat M [k, j] * bat aW [k, j]
        = (\<Sum>i<n. \<bar>elem W [k, i]\<bar> * elem (laplacian self) [i, j]) * \<bar>elem W [k, j]\<bar>"
      by (simp only: eM[OF kj] eaW[OF kj])
  qed
  also have "\<dots> = smoothness_penalty W (\<lambda>i j. elem (laplacian self) [i, j])"
    by (simp add: smoothness_penalty_def W)
  finally have s: "sum_list (data reg) = smoothness_penalty W (\<lambda>i j. elem (laplacian self) [i, j])" .
  have la: "last_item (slr_my_logistic_layers self) = Inr l"
    by (simp add: last_item_def l)
  show ?thesis
    using mm mul s
    by (simp only: SparseLogisticRegression_regularization_def la bind_err_Inr l(2) aW_def[symmetric])
qed

lemma smoothness_penalty_cong:
  assumes "shape W = [m, n]" "\<And>i j. i < n \<Longrightarrow> j < n \<Longrightarrow> L i j = L' i j"
  shows "smoothness_penalty W L = smoothness_penalty W L'"
  unfolding smoothness_penalty_def by (intro sum.cong refl arg_cong2[of _ _ _ _ "(*)"]) (simp_all add: assms)

lemma laplacian_quadratic_form_nonneg:
  assumes sh: "shape A = [n, n]" and wf: "wf_tensor A" and nn: "nonnegative A"
    and sym: "\<And>i j. i < n \<Longrightarrow> j < n \<Longrightarrow> elem A [i, j] = elem A [j, i]"
  shows "0 \<le> (\<Sum>j<n. (\<Sum>i<n. v i * laplacian_entry A i j) * v j)"
  unfolding laplacian_entry_def
proof (rule quadratic_form_nonneg[where e = epsilon])
  show "0 \<le> elem A [i, j]" if "i < n" "j < n" for i j
    using that by (intro nonnegative_elem[OF nn wf]) (simp add: sh)
  show "elem A [i, j] = elem A [j, i]" if "i < n" "j < n" for i j
    by (rule sym[OF that])
  show "degree A j = (\<Sum>i<n. elem A [i, j]) + epsilon" for j
    by (simp add: degree_def sh)
  show "0 < epsilon" by (rule epsilon_pos)
qed

lemma smoothness_penalty_nonneg:
  assumes sh: "shape A = [n, n]" and wf: "wf_tensor A" and nn: "nonnegative A"
    and sym: "\<And>i j. i < n \<Longrightarrow> j < n \<Longrightarrow> elem A [i, j] = elem A [j, i]"
    and W: "shape W = [m, n]"
  shows "0 \<le> smoothness_penalty W (laplacian_entry A)"
  unfolding smoothness_penalty_def W
  by (simp only: nth_Cons_0 nth_Cons_Suc One_nat_def)
     (intro sum_nonneg laplacian_quadratic_form_nonneg[OF sh wf nn sym])

lemma laplacian_entry_symmetric:
  assumes "elem A [i, j] = elem A [j, i]"
  shows "laplacian_entry A i j = laplacian_entry A j i"
  using assms by (auto simp: laplacian_entry_def mult.commute)



section \<open>Pruning at the full percentile\<close>

lemma percentile_zero:
  assumes "ws \<noteq> []" "w \<in> set ws"
  shows "percentile ws 0 \<le> w"
proof -
  obtain y ys where s: "sort ws = y # ys"
    using assms(1) by (cases "sort ws") (auto dest: arg_cong[of _ _ length])
  have "set (y # ys) = set ws" using arg_cong[OF s, of set] by simp
  then have "w \<in> set (y # ys)" using assms(2) by blast
  moreover have "sorted (y # ys)" using s sorted_sort[where xs = ws] by simp
  ultimately have "y \<le> w" by auto
  then show ?thesis
    by (simp add: percentile_def s)
qed

lemma percentile_prune_100: "percentile_prune 100 adj = adj"
proof (cases "filter (\<lambda>w. w \<noteq> 0) (data adj) = []")
  case True
  then show ?thesis by (simp add: percentile_prune_def)
next
  case False
  let ?ws = "filter (\<lambda>w. w \<noteq> 0) (data adj)"
  let ?t = "percentile ?ws 0"
  have "map (\<lambda>w. if ?t \<le> w then w else 0) (data adj) = data adj"
  proof (rule map_idI)
    fix w assume w: "w \<in> set (data adj)"
    show "(if ?t \<le> w then w else 0) = w"
    proof (cases "w = 0")
      case True
      then show ?thesis by simp
    next
      case nz: False
      then have "w \<in> set ?ws" using w by simp
      then have "?t \<le> w" by (rule percentile_zero[OF False])
      then show ?thesis by simp
    qed
  qed
  then show ?thesis
    using False by (simp add: percentile_prune_def map_tensor_def Let_def)
qed

text \<open>
  C7. With the edge-keep percentile at 100 the pruning returns the adjacency it is
  given, whatever the adjacency: the transform then returns its input when the
  self-loop option is off, and its input with the diagonal set to 1 when it is on.
\<close>

theorem C7_pruning_at_100_is_identity:
  "percentile_prune 100 adj = adj
   \<and> prune_transform False 100 adj = adj
   \<and> prune_transform True 100 adj = add_self_loops adj"
  by (simp add: prune_transform_def percentile_prune_100)

text \<open>
  Below 100 the pruning does remove edges: at 50 the weaker of two edges goes.
\<close>

lemma percentile_prune_at_50:
  "percentile_prune 50 \<lparr>shape = [2, 2], data = [0, 1, 3, 0]\<rparr> = \<lparr>shape = [2, 2], data = [0, 0, 3, 0]\<rparr>"
  by (simp add: percentile_prune_def percentile_def map_tensor_def Let_def)


end
